theory Spec2Isabelle
  imports Complex_Main "HOL-Library.Sublist"
begin

section \<open>Strings\<close>

text \<open>
  A JavaScript string is modelled by the list of bytes of its UTF-8 encoding. The retry
  loop classifies a failure with \<open>toLowerCase\<close> and \<open>includes\<close>.

  \<open>toLowerCase\<close> maps the ASCII letters \<open>A\<close>..\<open>Z\<close> to \<open>a\<close>..\<open>z\<close> and leaves every other byte
  as it is. The lower-cased message is only ever searched for ASCII substrings, and a
  character outside ASCII is lower-cased to characters outside ASCII; the two exceptions
  of Unicode (U+0130, which becomes \<open>i\<close> followed by U+0307, and U+212A, which becomes \<open>k\<close>)
  cannot complete an occurrence of any of the eight substrings searched for, none of which
  contains \<open>k\<close> or ends in \<open>i\<close>.
\<close>

definition toLowerChar :: "char \<Rightarrow> char" where
  "toLowerChar c =
     (let n = (of_char c :: nat)
      in if 65 \<le> n \<and> n \<le> 90 then char_of (n + 32) else c)"

definition toLowerCase :: "string \<Rightarrow> string" where
  "toLowerCase s = map toLowerChar s"

text \<open>\<open>haystack.includes(needle)\<close>: the needle occurs as a contiguous substring.\<close>

fun includes_str :: "string \<Rightarrow> string \<Rightarrow> bool" where
  "includes_str [] needle = (needle = [])"
| "includes_str (c # cs) needle = (prefix needle (c # cs) \<or> includes_str cs needle)"

section \<open>The error classes of \<open>utils/errors.ts\<close>\<close>

text \<open>
  Every value that is thrown is a \<open>jsError\<close>. \<open>PlainError\<close> is \<open>new Error(message)\<close> and
  any foreign value caught under the cast \<open>e as Error\<close>, whose \<open>message\<close> may be absent
  (a thunk that throws \<open>null\<close> or \<open>undefined\<close> is outside the model);
  \<open>SyntaxError\<close> and \<open>TypeError\<close> are the engine's. The other four constructors are the
  classes of \<open>utils/errors.ts\<close>; the three subclasses extend \<open>ApiError\<close>.
\<close>

datatype jsError =
    PlainError "string option"
  | SyntaxError string
  | TypeError string
  | ApiError string
  | RateLimitError string
  | InvalidInputError string
  | ServerError string

fun message :: "jsError \<Rightarrow> string option" where
  "message (PlainError m) = m"
| "message (SyntaxError m) = Some m"
| "message (TypeError m) = Some m"
| "message (ApiError m) = Some m"
| "message (RateLimitError m) = Some m"
| "message (InvalidInputError m) = Some m"
| "message (ServerError m) = Some m"

text \<open>\<open>new ApiError(m)\<close> where \<open>m\<close> may be \<open>undefined\<close>: \<open>super(undefined)\<close> leaves the
  message empty.\<close>

definition newApiError :: "string option \<Rightarrow> jsError" where
  "newApiError m = ApiError (case m of None \<Rightarrow> [] | Some t \<Rightarrow> t)"

text \<open>The default messages of the constructors.\<close>

definition rateLimitDefault :: string where
  "rateLimitDefault =
     ''API request limit reached. This can happen on the free tier. Please wait a moment and try again.''"

definition serverDefault :: string where
  "serverDefault = ''The AI service is currently unavailable. Please try again later.''"

definition invalidInputMessage :: string where
  "invalidInputMessage =
     ''There was an issue with one of the uploaded images. Please try using a different, clear image in a common format (PNG, JPG, WEBP).''"

section \<open>The retry loop \<open>callGeminiWithRetry\<close>\<close>

text \<open>
  The thunk \<open>apiCall\<close> is a state transformer that returns a value or throws. What the
  loop does to its surroundings is recorded in a trace of events, in the order of the
  source: each invocation of the thunk with its outcome, each call of \<open>onRetry\<close>, the
  \<open>console.warn\<close> line and each \<open>sleep\<close> with its delay in milliseconds.
\<close>

text \<open>
  \<open>ConsoleWarn d attempt n\<close> is the line
  \<open>Retriable error detected. Retrying in ${d}s... (Attempt ${attempt}/${n})\<close>, where \<open>d\<close> is
  \<open>delay / 1000\<close> and \<open>n\<close> is \<open>MAX_RETRIES - 1\<close>.
\<close>

datatype 'a event =
    ApiCall "jsError + 'a"
  | OnRetry nat
  | ConsoleWarn nat nat nat
  | Sleep nat

definition MAX_RETRIES :: nat where
  "MAX_RETRIES = 3"

text \<open>\<open>onRetry?.(attempt)\<close>: the callback is optional. Its type is
  \<open>(attempt: number) => void\<close>: it returns nothing, may change the caller's state, and is taken
  to return normally. When it is given, the call is an event of the trace.\<close>

definition callOnRetry :: "(nat \<Rightarrow> 's \<Rightarrow> 's) option \<Rightarrow> nat \<Rightarrow> 's \<Rightarrow> 's" where
  "callOnRetry onRetry attempt s = (case onRetry of None \<Rightarrow> s | Some f \<Rightarrow> f attempt s)"

definition onRetryEvents :: "(nat \<Rightarrow> 's \<Rightarrow> 's) option \<Rightarrow> nat \<Rightarrow> 'a event list" where
  "onRetryEvents onRetry attempt = (case onRetry of None \<Rightarrow> [] | Some f \<Rightarrow> [OnRetry attempt])"

text \<open>
  The classification of a failure is textual (lines 19 to 23 of the service):
  \<open>lastError.message?.toLowerCase() || ''\<close> and the three tests on it.
\<close>

definition lowerMessage :: "jsError \<Rightarrow> string" where
  "lowerMessage e = (case message e of None \<Rightarrow> [] | Some m \<Rightarrow> toLowerCase m)"

definition matchesRateLimit :: "string \<Rightarrow> bool" where
  "matchesRateLimit errorMessage =
     (includes_str errorMessage ''429'' \<or> includes_str errorMessage ''quota''
       \<or> includes_str errorMessage ''resource_exhausted'')"

definition matchesServer :: "string \<Rightarrow> bool" where
  "matchesServer errorMessage =
     (includes_str errorMessage ''500'' \<or> includes_str errorMessage ''503''
       \<or> includes_str errorMessage ''service unavailable'')"

definition matchesInvalidInput :: "string \<Rightarrow> bool" where
  "matchesInvalidInput errorMessage =
     (includes_str errorMessage ''400'' \<or> includes_str errorMessage ''invalid argument'')"

text \<open>
  The \<open>for\<close> loop, from the value \<open>attempt\<close> of its counter on. \<open>lastError\<close> is the
  variable of the source; it is read only by the \<open>throw\<close> after the loop.
\<close>

function retryLoop ::
  "('s \<Rightarrow> (jsError + 'a) \<times> 's) \<Rightarrow> (nat \<Rightarrow> 's \<Rightarrow> 's) option \<Rightarrow> nat \<Rightarrow> jsError option \<Rightarrow> 's
     \<Rightarrow> (jsError + 'a) \<times> 's \<times> 'a event list" where
  "retryLoop apiCall onRetry attempt lastError s =
     (if attempt \<le> MAX_RETRIES then
        (case apiCall s of
           (Inr v, s1) \<Rightarrow> (Inr v, s1, [ApiCall (Inr v)])
         | (Inl e, s1) \<Rightarrow>
             (let errorMessage = lowerMessage e;
                  isRateLimitError = matchesRateLimit errorMessage;
                  isServerError = matchesServer errorMessage;
                  isInvalidInputError = matchesInvalidInput errorMessage
              in if isInvalidInputError then
                   (Inl (InvalidInputError invalidInputMessage), s1, [ApiCall (Inl e)])
                 else if (isRateLimitError \<or> isServerError) \<and> attempt < MAX_RETRIES then
                   (let delay = 1000 * 2 ^ (attempt - 1);
                        s2 = callOnRetry onRetry attempt s1
                    in case retryLoop apiCall onRetry (attempt + 1) (Some e) s2 of
                         (r, s3, rest) \<Rightarrow>
                           (r, s3,
                            ApiCall (Inl e) # onRetryEvents onRetry attempt
                              @ [ConsoleWarn (delay div 1000) attempt (MAX_RETRIES - 1), Sleep delay]
                              @ rest))
                 else if isRateLimitError then
                   (Inl (RateLimitError rateLimitDefault), s1, [ApiCall (Inl e)])
                 else if isServerError then
                   (Inl (ServerError serverDefault), s1, [ApiCall (Inl e)])
                 else (Inl (newApiError (message e)), s1, [ApiCall (Inl e)])))
      else
        (case lastError of
           Some e \<Rightarrow> (Inl e, s, [])
         | None \<Rightarrow> (Inl (ApiError ''An unknown error occurred after multiple retries.''), s, [])))"
  by pat_completeness auto
termination
  by (relation "measure (\<lambda>(apiCall, onRetry, attempt, lastError, s). MAX_RETRIES + 1 - attempt)") auto

declare retryLoop.simps [simp del]

definition callGeminiWithRetry ::
  "('s \<Rightarrow> (jsError + 'a) \<times> 's) \<Rightarrow> (nat \<Rightarrow> 's \<Rightarrow> 's) option \<Rightarrow> 's
     \<Rightarrow> (jsError + 'a) \<times> 's \<times> 'a event list" where
  "callGeminiWithRetry apiCall onRetry s = retryLoop apiCall onRetry 1 None s"

section \<open>Observations on a trace\<close>

text \<open>The outcomes of the invocations of the thunk, the arguments given to \<open>onRetry\<close> and
  the delays given to \<open>sleep\<close>, each in the order of the run.\<close>

fun apiCalls :: "'a event list \<Rightarrow> (jsError + 'a) list" where
  "apiCalls [] = []"
| "apiCalls (ApiCall outcome # tr) = outcome # apiCalls tr"
| "apiCalls (OnRetry n # tr) = apiCalls tr"
| "apiCalls (ConsoleWarn d n m # tr) = apiCalls tr"
| "apiCalls (Sleep d # tr) = apiCalls tr"

fun onRetryArgs :: "'a event list \<Rightarrow> nat list" where
  "onRetryArgs [] = []"
| "onRetryArgs (ApiCall outcome # tr) = onRetryArgs tr"
| "onRetryArgs (OnRetry n # tr) = n # onRetryArgs tr"
| "onRetryArgs (ConsoleWarn d n m # tr) = onRetryArgs tr"
| "onRetryArgs (Sleep d # tr) = onRetryArgs tr"

fun sleepDelays :: "'a event list \<Rightarrow> nat list" where
  "sleepDelays [] = []"
| "sleepDelays (ApiCall outcome # tr) = sleepDelays tr"
| "sleepDelays (OnRetry n # tr) = sleepDelays tr"
| "sleepDelays (ConsoleWarn d n m # tr) = sleepDelays tr"
| "sleepDelays (Sleep d # tr) = d # sleepDelays tr"

text \<open>The calls made to the thunk, to \<open>onRetry\<close> and to \<open>sleep\<close>: the trace without the
  lines written to the console.\<close>

fun calls :: "'a event list \<Rightarrow> 'a event list" where
  "calls [] = []"
| "calls (ConsoleWarn d n m # tr) = calls tr"
| "calls (ev # tr) = ev # calls tr"

section \<open>The service operations\<close>

subsection \<open>Values, requests and responses\<close>

text \<open>A value produced by \<open>JSON.parse\<close>. A number is kept as a rational; the keys of an
  object are distinct.\<close>

datatype json =
    JNull
  | JBool bool
  | JNumber rat
  | JString string
  | JArray "json list"
  | JObject "(string \<times> json) list"

text \<open>Reading a property of a parsed value that is not \<open>null\<close>: \<open>undefined\<close> (\<open>None\<close>) unless
  the value is an object with that key.\<close>

fun getProp :: "json \<Rightarrow> string \<Rightarrow> json option" where
  "getProp (JObject kvs) key = map_of kvs key"
| "getProp j key = None"

text \<open>The parts of a request: \<open>{ inlineData: { mimeType, data } }\<close> and \<open>{ text }\<close>.\<close>

datatype requestPart =
    InlineDataPart "json option" "json option"
  | TextPart string

datatype schemaType = OBJECT | INTEGER | STRING

datatype schema =
  Schema schemaType "string option" "(string \<times> schema) list" "string list"

datatype modality = IMAGE

record config =
  responseModalities :: "modality list option"
  responseMimeType :: "string option"
  responseSchema :: "schema option"

record request =
  model :: string
  parts :: "requestPart list"
  config :: config

text \<open>The response of \<open>ai.models.generateContent\<close>, as far as the service reads it:
  \<open>response.candidates?.[0]?.content?.parts?.[0]\<close>, the \<open>inlineData\<close> of a part, and
  \<open>response.text\<close>.\<close>

datatype blob = Blob (mimeType: "string option") (data: "string option")

datatype part = Part (inlineData: "blob option") (partText: "string option")

datatype content = Content (contentParts: "part list option")

datatype candidate = Candidate (content: "content option")

datatype response = Response (candidates: "candidate list option") (responseText: "string option")

subsection \<open>What the service is run against\<close>

text \<open>
  The built-ins \<open>JSON.parse\<close> and \<open>String.prototype.trim\<close> of the engine and the remote
  call \<open>ai.models.generateContent\<close> are not code of the service; they are parameters.
  \<open>JSON_parse\<close> returns the message of the \<open>SyntaxError\<close> it throws (\<open>Inl\<close>) or the parsed
  value; \<open>nullDestructureMessage\<close> is the message of the \<open>TypeError\<close> that destructuring
  \<open>null\<close> throws; \<open>generateContent\<close> answers a request in a state of the world, with a
  response or a thrown error.
\<close>

record 'w env =
  JSON_parse :: "string \<Rightarrow> string + json"
  trim :: "string \<Rightarrow> string"
  nullDestructureMessage :: string
  generateContent :: "request \<Rightarrow> 'w \<Rightarrow> (jsError + response) \<times> 'w"

text \<open>The state a service operation runs in: the world, and the requests sent to the remote
  service so far.\<close>

record 'w session =
  world :: 'w
  requests :: "request list"

definition sendRequest ::
  "'w env \<Rightarrow> request \<Rightarrow> 'w session \<Rightarrow> (jsError + response) \<times> 'w session" where
  "sendRequest env req st =
     (case generateContent env req (world st) of
        (outcome, w) \<Rightarrow> (outcome, \<lparr>world = w, requests = requests st @ [req]\<rparr>))"

text \<open>The caller's \<open>onRetry\<close> acts on the world.\<close>

definition liftOnRetry ::
  "(nat \<Rightarrow> 'w \<Rightarrow> 'w) option \<Rightarrow> (nat \<Rightarrow> 'w session \<Rightarrow> 'w session) option" where
  "liftOnRetry onRetry = map_option (\<lambda>f attempt st. st\<lparr>world := f attempt (world st)\<rparr>) onRetry"

subsection \<open>\<open>createImagePart\<close>\<close>

text \<open>\<open>const { mimeType, data } = JSON.parse(imageData)\<close>: the parse may throw, and so does
  destructuring \<open>null\<close>.\<close>

definition createImagePart :: "'w env \<Rightarrow> string \<Rightarrow> jsError + requestPart" where
  "createImagePart env imageData =
     (case JSON_parse env imageData of
        Inl msg \<Rightarrow> Inl (SyntaxError msg)
      | Inr parsed \<Rightarrow>
          (case parsed of
             JNull \<Rightarrow> Inl (TypeError (nullDestructureMessage env))
           | _ \<Rightarrow> Inr (InlineDataPart (getProp parsed ''mimeType'') (getProp parsed ''data''))))"

subsection \<open>\<open>JSON.stringify\<close> of \<open>{ mimeType, data }\<close>\<close>

text \<open>The object has the two properties of the \<open>inlineData\<close> of the part, each a string or
  \<open>undefined\<close>.\<close>

definition hexDigit :: "nat \<Rightarrow> char" where
  "hexDigit n = (if n < 10 then char_of (48 + n) else char_of (87 + n))"

text \<open>The quoting of a string by \<open>JSON.stringify\<close>.\<close>

definition escapeChar :: "char \<Rightarrow> string" where
  "escapeChar c =
     (let n = (of_char c :: nat)
      in if n = 34 then [CHR 0x5C, CHR 0x22]
         else if n = 92 then [CHR 0x5C, CHR 0x5C]
         else if n = 8 then [CHR 0x5C, CHR ''b'']
         else if n = 12 then [CHR 0x5C, CHR ''f'']
         else if n = 10 then [CHR 0x5C, CHR ''n'']
         else if n = 13 then [CHR 0x5C, CHR ''r'']
         else if n = 9 then [CHR 0x5C, CHR ''t'']
         else if n < 32 then [CHR 0x5C, CHR ''u'', CHR ''0'', CHR ''0'', hexDigit (n div 16), hexDigit (n mod 16)]
         else [c])"

definition quoteJSON :: "string \<Rightarrow> string" where
  "quoteJSON s = CHR 0x22 # concat (map escapeChar s) @ [CHR 0x22]"

text \<open>A property whose value is \<open>undefined\<close> is left out.\<close>

definition stringifyImage :: "blob \<Rightarrow> string" where
  "stringifyImage b =
     (let members =
            (case mimeType b of None \<Rightarrow> [] | Some m \<Rightarrow> [quoteJSON ''mimeType'' @ '':'' @ quoteJSON m])
            @ (case data b of None \<Rightarrow> [] | Some d \<Rightarrow> [quoteJSON ''data'' @ '':'' @ quoteJSON d])
      in ''{'' @ (case members of
                   [] \<Rightarrow> []
                 | [m1] \<Rightarrow> m1
                 | m1 # m2 # rest \<Rightarrow> m1 @ '','' @ m2)
           @ ''}'')"

subsection \<open>\<open>generateStyledImage\<close>\<close>

definition styledImagePrompt :: string where
  "styledImagePrompt =
     ''As an expert fashion photoshoot art director, generate a new, photorealistic image of the model from the first image wearing the clothing item from the second image. The final output should be a high-quality, professional-looking photo suitable for an e-commerce website or a fashion lookbook. Position the model in a natural pose. The background should be a clean, minimalist studio setting (e.g., light gray, off-white) to emphasize the outfit. Pay close attention to realistic details: ensure the clothing drapes and fits the model''
     @ [CHR 0x27]
     @ ''s body naturally, the lighting is soft and flattering (like from a large softbox), and the textures of the fabric are accurately rendered. The final image should ONLY contain the styled model and the background, with no extra text or artifacts.''"

definition noImageMessage :: string where
  "noImageMessage = ''Could not generate styled image. The API did not return an image.''"

definition firstPart :: "response \<Rightarrow> part option" where
  "firstPart response =
     (case candidates response of
        None \<Rightarrow> None
      | Some [] \<Rightarrow> None
      | Some (c # cs) \<Rightarrow>
          (case content c of
             None \<Rightarrow> None
           | Some ct \<Rightarrow>
               (case contentParts ct of
                  None \<Rightarrow> None
                | Some [] \<Rightarrow> None
                | Some (p # ps) \<Rightarrow> Some p)))"

text \<open>The argument of \<open>ai.models.generateContent\<close>.\<close>

definition styledImageRequest :: "requestPart \<Rightarrow> requestPart \<Rightarrow> request" where
  "styledImageRequest modelImagePart clothingImagePart =
     \<lparr>model = ''gemini-2.5-flash-image'',
      parts = [modelImagePart, clothingImagePart, TextPart styledImagePrompt],
      config = \<lparr>responseModalities = Some [IMAGE], responseMimeType = None, responseSchema = None\<rparr>\<rparr>"

text \<open>The thunk handed to \<open>callGeminiWithRetry\<close>.\<close>

definition styledImageCall ::
  "'w env \<Rightarrow> string \<Rightarrow> string \<Rightarrow> 'w session \<Rightarrow> (jsError + string) \<times> 'w session" where
  "styledImageCall env modelImage clothingImage st =
     (case createImagePart env modelImage of
        Inl e \<Rightarrow> (Inl e, st)
      | Inr modelImagePart \<Rightarrow>
          (case createImagePart env clothingImage of
             Inl e \<Rightarrow> (Inl e, st)
           | Inr clothingImagePart \<Rightarrow>
               (case sendRequest env (styledImageRequest modelImagePart clothingImagePart) st of
                  (Inl e, st1) \<Rightarrow> (Inl e, st1)
                | (Inr response, st1) \<Rightarrow>
                    (case firstPart response of
                       None \<Rightarrow> (Inl (PlainError (Some noImageMessage)), st1)
                     | Some p \<Rightarrow>
                         (case inlineData p of
                            None \<Rightarrow> (Inl (PlainError (Some noImageMessage)), st1)
                          | Some b \<Rightarrow> (Inr (stringifyImage b), st1))))))"

definition generateStyledImage ::
  "'w env \<Rightarrow> string \<Rightarrow> string \<Rightarrow> (nat \<Rightarrow> 'w \<Rightarrow> 'w) option \<Rightarrow> 'w session
     \<Rightarrow> (jsError + string) \<times> 'w session \<times> string event list" where
  "generateStyledImage env modelImage clothingImage onRetry st =
     callGeminiWithRetry (styledImageCall env modelImage clothingImage) (liftOnRetry onRetry) st"

subsection \<open>\<open>analyzeTrend\<close>\<close>

definition trendPrompt :: string where
  "trendPrompt =
     ''You are a professional fashion trend forecaster. Analyze this image. Based on current global fashion trends (e.g., color palettes, silhouettes, fabrics, Y2K revival, minimalist aesthetics, streetwear influences), provide a trend score from 0 to 100. Also, provide a brief, insightful analysis (2-3 sentences) explaining the score. Highlight trendy elements and suggest potential improvements for marketability.''"

definition trendSchema :: schema where
  "trendSchema =
     Schema OBJECT None
       [(''score'', Schema INTEGER (Some ''The trend score from 0 to 100.'') [] []),
        (''analysis'', Schema STRING (Some ''A brief analysis of the fashion trend.'') [] [])]
       [''score'', ''analysis'']"

text \<open>The argument of \<open>ai.models.generateContent\<close>.\<close>

definition trendRequest :: "requestPart \<Rightarrow> request" where
  "trendRequest imagePart =
     \<lparr>model = ''gemini-2.5-pro'',
      parts = [imagePart, TextPart trendPrompt],
      config = \<lparr>responseModalities = None, responseMimeType = Some ''application/json'',
                responseSchema = Some trendSchema\<rparr>\<rparr>"

definition invalidFormatMessage :: string where
  "invalidFormatMessage = ''Failed to analyze trend. The API returned an invalid format.''"

text \<open>
  The thunk handed to \<open>callGeminiWithRetry\<close>. Inside its \<open>try\<close>, \<open>response.text.trim()\<close>
  throws when \<open>response.text\<close> is \<open>undefined\<close> and \<open>JSON.parse\<close> throws on a text that is not
  JSON; the \<open>catch\<close> replaces either by the same \<open>Error\<close>. The parsed value is returned under
  a type assertion, \<open>as TrendAnalysisResult\<close>, which checks nothing. The \<open>console.error\<close>
  line before the \<open>throw\<close> does not bear on the result and is left out.
\<close>

definition trendCall ::
  "'w env \<Rightarrow> string \<Rightarrow> 'w session \<Rightarrow> (jsError + json) \<times> 'w session" where
  "trendCall env generatedImage st =
     (case createImagePart env generatedImage of
        Inl e \<Rightarrow> (Inl e, st)
      | Inr imagePart \<Rightarrow>
          (case sendRequest env (trendRequest imagePart) st of
             (Inl e, st1) \<Rightarrow> (Inl e, st1)
           | (Inr response, st1) \<Rightarrow>
               (case responseText response of
                  None \<Rightarrow> (Inl (PlainError (Some invalidFormatMessage)), st1)
                | Some t \<Rightarrow>
                    (case JSON_parse env (trim env t) of
                       Inl msg \<Rightarrow> (Inl (PlainError (Some invalidFormatMessage)), st1)
                     | Inr result \<Rightarrow> (Inr result, st1)))))"

definition analyzeTrend ::
  "'w env \<Rightarrow> string \<Rightarrow> (nat \<Rightarrow> 'w \<Rightarrow> 'w) option \<Rightarrow> 'w session
     \<Rightarrow> (jsError + json) \<times> 'w session \<times> json event list" where
  "analyzeTrend env generatedImage onRetry st =
     callGeminiWithRetry (trendCall env generatedImage) (liftOnRetry onRetry) st"

section \<open>What the specification says of a response\<close>

text \<open>
  Two readings of the specification's words, to compare the operations with. The inline
  images of a response are those of all parts of all candidates (``the remote response
  contains at least one content part with inline image data''). A parsed value matches
  the declared schema when it is an object whose \<open>score\<close> is an integer from 0 to 100 and
  whose \<open>analysis\<close> is a string.
\<close>

definition spec_imageParts :: "response \<Rightarrow> blob list" where
  "spec_imageParts response =
     concat (map (\<lambda>c. case content c of
                          None \<Rightarrow> []
                        | Some ct \<Rightarrow>
                            (case contentParts ct of
                               None \<Rightarrow> []
                             | Some ps \<Rightarrow> List.map_filter inlineData ps))
                 (case candidates response of None \<Rightarrow> [] | Some cs \<Rightarrow> cs))"

fun spec_matchesSchema :: "json \<Rightarrow> bool" where
  "spec_matchesSchema (JObject kvs) =
     (case (map_of kvs ''score'', map_of kvs ''analysis'') of
        (Some (JNumber q), Some (JString a)) \<Rightarrow> of_int \<lfloor>q\<rfloor> = q \<and> 0 \<le> q \<and> q \<le> 100
      | _ \<Rightarrow> False)"
| "spec_matchesSchema j = False"

section \<open>Concrete runs\<close>

text \<open>
  The state of the concrete thunks is a pair: the number of invocations so far, and the
  arguments the callback has been given. A scripted thunk has, at its \<open>n\<close>-th invocation,
  the \<open>n\<close>-th outcome of its script (and fails without a message once the script is used
  up).
\<close>

definition scripted ::
  "(jsError + string) list \<Rightarrow> nat \<times> nat list \<Rightarrow> (jsError + string) \<times> (nat \<times> nat list)" where
  "scripted outcomes st =
     (if fst st < length outcomes then outcomes ! fst st else Inl (PlainError None),
      (Suc (fst st), snd st))"

text \<open>A thunk that fails with the same error whenever it is invoked.\<close>

definition alwaysFails ::
  "jsError \<Rightarrow> nat \<times> nat list \<Rightarrow> (jsError + string) \<times> (nat \<times> nat list)" where
  "alwaysFails e st = (Inl e, (Suc (fst st), snd st))"

text \<open>A callback that records its argument.\<close>

definition noteRetry :: "nat \<Rightarrow> nat \<times> nat list \<Rightarrow> nat \<times> nat list" where
  "noteRetry attempt st = (fst st, snd st @ [attempt])"

text \<open>Failures of the remote service, by their messages.\<close>

definition unavailable :: jsError where
  "unavailable = PlainError (Some ''503 Service Unavailable'')"

definition overQuota :: jsError where
  "overQuota = PlainError (Some ''Error 429: quota'')"

definition quotaExhausted :: jsError where
  "quotaExhausted = PlainError (Some ''RESOURCE_EXHAUSTED: Quota exceeded'')"

definition badRequest :: jsError where
  "badRequest = PlainError (Some ''400 Bad Request: invalid image'')"

definition badRequestAfter429 :: jsError where
  "badRequestAfter429 = PlainError (Some ''Error 400 (after a 429)'')"

definition quotaAnd503 :: jsError where
  "quotaAnd503 = PlainError (Some ''503: quota exceeded'')"

text \<open>The traces of some runs: one retry and then a value, two retries and then a value,
  and two retries and then a third failure, with and without a callback.\<close>

definition retriedOnce :: "string event list" where
  "retriedOnce =
     [ApiCall (Inl unavailable), OnRetry 1, ConsoleWarn 1 1 2, Sleep 1000, ApiCall (Inr ''styled'')]"

definition retriedTwice :: "string event list" where
  "retriedTwice =
     [ApiCall (Inl unavailable), OnRetry 1, ConsoleWarn 1 1 2, Sleep 1000,
      ApiCall (Inl overQuota), OnRetry 2, ConsoleWarn 2 2 2, Sleep 2000, ApiCall (Inr ''ok'')]"

definition quotaThrice :: "string event list" where
  "quotaThrice =
     [ApiCall (Inl quotaExhausted), OnRetry 1, ConsoleWarn 1 1 2, Sleep 1000,
      ApiCall (Inl quotaExhausted), OnRetry 2, ConsoleWarn 2 2 2, Sleep 2000,
      ApiCall (Inl quotaExhausted)]"

definition unavailableThrice :: "string event list" where
  "unavailableThrice =
     [ApiCall (Inl unavailable), ConsoleWarn 1 1 2, Sleep 1000,
      ApiCall (Inl unavailable), ConsoleWarn 2 2 2, Sleep 2000, ApiCall (Inl unavailable)]"

definition exhausted :: "string event list" where
  "exhausted =
     [ApiCall (Inl quotaAnd503), OnRetry 1, ConsoleWarn 1 1 2, Sleep 1000,
      ApiCall (Inl quotaAnd503), OnRetry 2, ConsoleWarn 2 2 2, Sleep 2000, ApiCall (Inl quotaAnd503)]"

text \<open>
  An image as the uploader serialises it, two texts of the analysis service, and an engine
  that agrees with \<open>JSON.parse\<close> and \<open>trim\<close> on them and on the text \<open>oops\<close>, which is not
  JSON.
\<close>

definition pngBlob :: blob where
  "pngBlob = Blob (Some ''image/png'') (Some ''abc123'')"

definition pngImage :: string where
  "pngImage = stringifyImage pngBlob"

definition pngPart :: requestPart where
  "pngPart = InlineDataPart (Some (JString ''image/png'')) (Some (JString ''abc123''))"

definition trendText :: string where
  "trendText =
     ''{'' @ quoteJSON ''score'' @ '': 72, '' @ quoteJSON ''analysis'' @ '': ''
       @ quoteJSON ''Bold streetwear mix.'' @ ''}''"

definition trendValue :: json where
  "trendValue = JObject [(''score'', JNumber 72), (''analysis'', JString ''Bold streetwear mix.'')]"

definition offSchemaText :: string where
  "offSchemaText = ''{'' @ quoteJSON ''score'' @ '':'' @ quoteJSON ''high'' @ ''}''"

definition offSchemaValue :: json where
  "offSchemaValue = JObject [(''score'', JString ''high'')]"

definition unexpectedToken :: string where
  "unexpectedToken = ''Unexpected token o in JSON at position 0''"

definition stubParse :: "string \<Rightarrow> string + json" where
  "stubParse s =
     (if s = pngImage then
        Inr (JObject [(''mimeType'', JString ''image/png''), (''data'', JString ''abc123'')])
      else if s = trendText then Inr trendValue
      else if s = offSchemaText then Inr offSchemaValue
      else Inl unexpectedToken)"

definition stubTrim :: "string \<Rightarrow> string" where
  "stubTrim s = rev (dropWhile (\<lambda>c. c = CHR '' '') (rev (dropWhile (\<lambda>c. c = CHR '' '') s)))"

text \<open>Remote services that answer every request with the same response; the world is the
  number of requests answered.\<close>

definition stubEnv :: "response \<Rightarrow> nat env" where
  "stubEnv response =
     \<lparr>JSON_parse = stubParse, trim = stubTrim,
      nullDestructureMessage = ''Cannot destructure property of null'',
      generateContent = (\<lambda>req w. (Inr response, Suc w))\<rparr>"

definition imageResponse :: response where
  "imageResponse = Response (Some [Candidate (Some (Content (Some [Part (Some pngBlob) None])))]) None"

definition textThenImageResponse :: response where
  "textThenImageResponse =
     Response
       (Some [Candidate (Some (Content (Some [Part None (Some ''Here is the styled photo.''),
                                               Part (Some pngBlob) None])))])
       (Some ''Here is the styled photo.'')"

definition textResponse :: "string \<Rightarrow> response" where
  "textResponse t = Response (Some [Candidate (Some (Content (Some [Part None (Some t)])))]) (Some t)"

definition session0 :: "nat session" where
  "session0 = \<lparr>world = 0, requests = []\<rparr>"






section \<open>The steps of the retry loop\<close>

lemma retryLoop_resolved:
  "attempt \<le> MAX_RETRIES \<Longrightarrow> apiCall s = (Inr v, s1) \<Longrightarrow>
   retryLoop apiCall onRetry attempt lastError s = (Inr v, s1, [ApiCall (Inr v)])"
  by (subst retryLoop.simps) simp

lemma retryLoop_invalid:
  "attempt \<le> MAX_RETRIES \<Longrightarrow> apiCall s = (Inl e, s1) \<Longrightarrow> matchesInvalidInput (lowerMessage e) \<Longrightarrow>
   retryLoop apiCall onRetry attempt lastError s
     = (Inl (InvalidInputError invalidInputMessage), s1, [ApiCall (Inl e)])"
  by (subst retryLoop.simps) simp

lemma retryLoop_retry:
  "attempt < MAX_RETRIES \<Longrightarrow> apiCall s = (Inl e, s1) \<Longrightarrow> \<not> matchesInvalidInput (lowerMessage e) \<Longrightarrow>
   matchesRateLimit (lowerMessage e) \<or> matchesServer (lowerMessage e) \<Longrightarrow>
   retryLoop apiCall onRetry attempt lastError s
     = (case retryLoop apiCall onRetry (attempt + 1) (Some e) (callOnRetry onRetry attempt s1) of
          (r, s3, rest) \<Rightarrow>
            (r, s3,
             ApiCall (Inl e) # onRetryEvents onRetry attempt
               @ [ConsoleWarn (2 ^ (attempt - 1)) attempt (MAX_RETRIES - 1), Sleep (1000 * 2 ^ (attempt - 1))]
               @ rest))"
  by (subst retryLoop.simps) (simp add: Let_def)

lemma retryLoop_last_rate:
  "attempt = MAX_RETRIES \<Longrightarrow> apiCall s = (Inl e, s1) \<Longrightarrow> \<not> matchesInvalidInput (lowerMessage e) \<Longrightarrow>
   matchesRateLimit (lowerMessage e) \<Longrightarrow>
   retryLoop apiCall onRetry attempt lastError s
     = (Inl (RateLimitError rateLimitDefault), s1, [ApiCall (Inl e)])"
  by (subst retryLoop.simps) simp

lemma retryLoop_last_server:
  "attempt = MAX_RETRIES \<Longrightarrow> apiCall s = (Inl e, s1) \<Longrightarrow> \<not> matchesInvalidInput (lowerMessage e) \<Longrightarrow>
   \<not> matchesRateLimit (lowerMessage e) \<Longrightarrow> matchesServer (lowerMessage e) \<Longrightarrow>
   retryLoop apiCall onRetry attempt lastError s
     = (Inl (ServerError serverDefault), s1, [ApiCall (Inl e)])"
  by (subst retryLoop.simps) simp

lemma retryLoop_other:
  "attempt \<le> MAX_RETRIES \<Longrightarrow> apiCall s = (Inl e, s1) \<Longrightarrow> \<not> matchesInvalidInput (lowerMessage e) \<Longrightarrow>
   \<not> matchesRateLimit (lowerMessage e) \<Longrightarrow> \<not> matchesServer (lowerMessage e) \<Longrightarrow>
   retryLoop apiCall onRetry attempt lastError s
     = (Inl (newApiError (message e)), s1, [ApiCall (Inl e)])"
  by (subst retryLoop.simps) simp

text \<open>One turn of the loop ends the run in one of five ways, or goes on to the next
  attempt.\<close>

lemma retryLoop_cases [consumes 1, case_names resolved invalid retry last_rate last_server other]:
  assumes "attempt \<le> MAX_RETRIES"
  obtains
    (resolved) v s1 where "apiCall s = (Inr v, s1)"
      "retryLoop apiCall onRetry attempt lastError s = (Inr v, s1, [ApiCall (Inr v)])"
  | (invalid) e s1 where "apiCall s = (Inl e, s1)" "matchesInvalidInput (lowerMessage e)"
      "retryLoop apiCall onRetry attempt lastError s
         = (Inl (InvalidInputError invalidInputMessage), s1, [ApiCall (Inl e)])"
  | (retry) e s1 r s3 rest where "apiCall s = (Inl e, s1)" "\<not> matchesInvalidInput (lowerMessage e)"
      "matchesRateLimit (lowerMessage e) \<or> matchesServer (lowerMessage e)" "attempt < MAX_RETRIES"
      "retryLoop apiCall onRetry (attempt + 1) (Some e) (callOnRetry onRetry attempt s1) = (r, s3, rest)"
      "retryLoop apiCall onRetry attempt lastError s
         = (r, s3,
            ApiCall (Inl e) # onRetryEvents onRetry attempt
              @ [ConsoleWarn (2 ^ (attempt - 1)) attempt (MAX_RETRIES - 1), Sleep (1000 * 2 ^ (attempt - 1))]
              @ rest)"
  | (last_rate) e s1 where "apiCall s = (Inl e, s1)" "\<not> matchesInvalidInput (lowerMessage e)"
      "matchesRateLimit (lowerMessage e)" "attempt = MAX_RETRIES"
      "retryLoop apiCall onRetry attempt lastError s
         = (Inl (RateLimitError rateLimitDefault), s1, [ApiCall (Inl e)])"
  | (last_server) e s1 where "apiCall s = (Inl e, s1)" "\<not> matchesInvalidInput (lowerMessage e)"
      "\<not> matchesRateLimit (lowerMessage e)" "matchesServer (lowerMessage e)" "attempt = MAX_RETRIES"
      "retryLoop apiCall onRetry attempt lastError s
         = (Inl (ServerError serverDefault), s1, [ApiCall (Inl e)])"
  | (other) e s1 where "apiCall s = (Inl e, s1)" "\<not> matchesInvalidInput (lowerMessage e)"
      "\<not> matchesRateLimit (lowerMessage e)" "\<not> matchesServer (lowerMessage e)"
      "retryLoop apiCall onRetry attempt lastError s
         = (Inl (newApiError (message e)), s1, [ApiCall (Inl e)])"
proof (cases "apiCall s")
  case (Pair outcome s1)
  show thesis
  proof (cases outcome)
    case (Inr v)
    with Pair assms show thesis
      using resolved retryLoop_resolved by metis
  next
    case (Inl e)
    note ap = Pair [unfolded Inl]
    show thesis
    proof (cases "matchesInvalidInput (lowerMessage e)")
      case True
      with ap assms show thesis
        using invalid retryLoop_invalid by metis
    next
      case notInv: False
      show thesis
      proof (cases "matchesRateLimit (lowerMessage e) \<or> matchesServer (lowerMessage e)")
        case False
        with ap assms notInv show thesis
          using other [of e s1] retryLoop_other [of attempt apiCall s e s1 onRetry lastError] by blast
      next
        case retriable: True
        show thesis
        proof (cases "attempt < MAX_RETRIES")
          case True
          obtain r s3 rest where
            nxt: "retryLoop apiCall onRetry (attempt + 1) (Some e) (callOnRetry onRetry attempt s1) = (r, s3, rest)"
            by (metis prod_cases3)
          from retryLoop_retry [of attempt apiCall s e s1 onRetry lastError] True ap notInv retriable nxt
          have "retryLoop apiCall onRetry attempt lastError s
                 = (r, s3,
                    ApiCall (Inl e) # onRetryEvents onRetry attempt
                      @ [ConsoleWarn (2 ^ (attempt - 1)) attempt (MAX_RETRIES - 1), Sleep (1000 * 2 ^ (attempt - 1))]
                      @ rest)"
            by simp
          with ap notInv retriable True nxt show thesis
            using retry by blast
        next
          case False
          with assms have last: "attempt = MAX_RETRIES" by simp
          show thesis
          proof (cases "matchesRateLimit (lowerMessage e)")
            case True
            with ap notInv last show thesis
              using last_rate [of e s1] retryLoop_last_rate [of attempt apiCall s e s1 onRetry lastError] by blast
          next
            case False
            with retriable have "matchesServer (lowerMessage e)" by simp
            with ap notInv last False show thesis
              using last_server [of e s1] retryLoop_last_server [of attempt apiCall s e s1 onRetry lastError]
              by blast
          qed
        qed
      qed
    qed
  qed
qed

text \<open>The trace of a run is a single invocation, or a failed invocation, the callback, the
  warning, the sleep, and the trace of the run from the next attempt on.\<close>

lemma retryLoop_shape:
  assumes "attempt \<le> MAX_RETRIES" and "retryLoop apiCall onRetry attempt lastError s = (r, s', tr)"
  shows "(\<exists>outcome. tr = [ApiCall outcome])
         \<or> (attempt < MAX_RETRIES
             \<and> (\<exists>e s1 rest. retryLoop apiCall onRetry (attempt + 1) (Some e) s1 = (r, s', rest)
                   \<and> tr = ApiCall (Inl e) # onRetryEvents onRetry attempt
                            @ [ConsoleWarn (2 ^ (attempt - 1)) attempt (MAX_RETRIES - 1),
                               Sleep (1000 * 2 ^ (attempt - 1))]
                            @ rest))"
  using assms(1)
  by (cases rule: retryLoop_cases [where apiCall = apiCall and s = s and onRetry = onRetry
        and lastError = lastError]) (use assms(2) in auto)

section \<open>The trace of a run\<close>

lemma apiCalls_append: "apiCalls (xs @ ys) = apiCalls xs @ apiCalls ys"
  by (induction xs rule: apiCalls.induct) simp_all

lemma onRetryArgs_append: "onRetryArgs (xs @ ys) = onRetryArgs xs @ onRetryArgs ys"
  by (induction xs rule: onRetryArgs.induct) simp_all

lemma sleepDelays_append: "sleepDelays (xs @ ys) = sleepDelays xs @ sleepDelays ys"
  by (induction xs rule: sleepDelays.induct) simp_all

lemma calls_append: "calls (xs @ ys) = calls xs @ calls ys"
  by (induction xs rule: calls.induct) simp_all

lemma apiCalls_onRetryEvents: "apiCalls (onRetryEvents onRetry k) = []"
  by (simp add: onRetryEvents_def split: option.split)

lemma sleepDelays_onRetryEvents: "sleepDelays (onRetryEvents onRetry k) = []"
  by (simp add: onRetryEvents_def split: option.split)

lemma onRetryArgs_onRetryEvents:
  "onRetryArgs (onRetryEvents onRetry k) = (case onRetry of None \<Rightarrow> [] | Some f \<Rightarrow> [k])"
  by (simp add: onRetryEvents_def split: option.split)

lemma calls_onRetryEvents: "calls (onRetryEvents onRetry k) = onRetryEvents onRetry k"
  by (simp add: onRetryEvents_def split: option.split)

lemmas trace_simps =
  apiCalls_append onRetryArgs_append sleepDelays_append calls_append
  apiCalls_onRetryEvents sleepDelays_onRetryEvents onRetryArgs_onRetryEvents calls_onRetryEvents

text \<open>From attempt \<open>attempt\<close> on, the thunk is invoked at least once and at most
  \<open>MAX_RETRIES + 1 - attempt\<close> times.\<close>

lemma retryLoop_calls_bound:
  "attempt \<le> MAX_RETRIES \<Longrightarrow> retryLoop apiCall onRetry attempt lastError s = (r, s', tr) \<Longrightarrow>
   1 \<le> length (apiCalls tr) \<and> attempt + length (apiCalls tr) \<le> MAX_RETRIES + 1"
proof (induction "MAX_RETRIES - attempt" arbitrary: attempt lastError s r s' tr rule: less_induct)
  case less
  from less.prems(1) show ?case
  proof (cases rule: retryLoop_cases [where apiCall = apiCall and s = s and onRetry = onRetry
          and lastError = lastError])
    case (retry e s1 r' s3 rest)
    have "MAX_RETRIES - (attempt + 1) < MAX_RETRIES - attempt" using retry(4) by simp
    moreover have "attempt + 1 \<le> MAX_RETRIES" using retry(4) by simp
    ultimately have "1 \<le> length (apiCalls rest) \<and> attempt + 1 + length (apiCalls rest) \<le> MAX_RETRIES + 1"
      using less.hyps retry(5) by blast
    moreover have "apiCalls tr = Inl e # apiCalls rest"
      using retry(6) less.prems(2) by (auto simp: trace_simps)
    ultimately show ?thesis by simp
  qed (use less.prems in auto)
qed

lemma retryLoop_trace_nonempty:
  "attempt \<le> MAX_RETRIES \<Longrightarrow> retryLoop apiCall onRetry attempt lastError s = (r, s', tr) \<Longrightarrow> tr \<noteq> []"
  using retryLoop_calls_bound [of attempt apiCall onRetry lastError s r s' tr] by auto

text \<open>The delays of the sleeps and the arguments of the callback, from attempt \<open>attempt\<close> on.\<close>

lemma retryLoop_sleepDelays:
  "attempt \<le> MAX_RETRIES \<Longrightarrow> retryLoop apiCall onRetry attempt lastError s = (r, s', tr) \<Longrightarrow>
   sleepDelays tr = map (\<lambda>k. 1000 * 2 ^ (k - 1)) [attempt..<attempt + (length (apiCalls tr) - 1)]"
proof (induction "MAX_RETRIES - attempt" arbitrary: attempt lastError s r s' tr rule: less_induct)
  case less
  from less.prems(1) show ?case
  proof (cases rule: retryLoop_cases [where apiCall = apiCall and s = s and onRetry = onRetry
          and lastError = lastError])
    case (retry e s1 r' s3 rest)
    have lt: "MAX_RETRIES - (attempt + 1) < MAX_RETRIES - attempt" using retry(4) by simp
    have le: "attempt + 1 \<le> MAX_RETRIES" using retry(4) by simp
    have ih: "sleepDelays rest
                = map (\<lambda>k. 1000 * 2 ^ (k - 1)) [attempt + 1..<attempt + 1 + (length (apiCalls rest) - 1)]"
      using less.hyps [OF lt le retry(5)] .
    have pos: "1 \<le> length (apiCalls rest)"
      using retryLoop_calls_bound [OF le retry(5)] by simp
    have tr: "tr = ApiCall (Inl e) # onRetryEvents onRetry attempt
                @ [ConsoleWarn (2 ^ (attempt - 1)) attempt (MAX_RETRIES - 1), Sleep (1000 * 2 ^ (attempt - 1))]
                @ rest"
      using retry(6) less.prems(2) by simp
    obtain n where n: "length (apiCalls rest) = Suc n"
      using pos by (cases "length (apiCalls rest)") auto
    have "[attempt..<attempt + length (apiCalls rest)]
            = attempt # [attempt + 1..<attempt + 1 + (length (apiCalls rest) - 1)]"
      unfolding n by (simp add: upt_conv_Cons)
    then show ?thesis
      using ih by (simp add: tr trace_simps)
  qed (use less.prems in auto)
qed

lemma retryLoop_onRetryArgs:
  "attempt \<le> MAX_RETRIES \<Longrightarrow> retryLoop apiCall onRetry attempt lastError s = (r, s', tr) \<Longrightarrow>
   onRetryArgs tr
     = (case onRetry of None \<Rightarrow> [] | Some f \<Rightarrow> [attempt..<attempt + (length (apiCalls tr) - 1)])"
proof (induction "MAX_RETRIES - attempt" arbitrary: attempt lastError s r s' tr rule: less_induct)
  case less
  from less.prems(1) show ?case
  proof (cases rule: retryLoop_cases [where apiCall = apiCall and s = s and onRetry = onRetry
          and lastError = lastError])
    case (retry e s1 r' s3 rest)
    have lt: "MAX_RETRIES - (attempt + 1) < MAX_RETRIES - attempt" using retry(4) by simp
    have le: "attempt + 1 \<le> MAX_RETRIES" using retry(4) by simp
    have ih: "onRetryArgs rest
                = (case onRetry of None \<Rightarrow> []
                   | Some f \<Rightarrow> [attempt + 1..<attempt + 1 + (length (apiCalls rest) - 1)])"
      using less.hyps [OF lt le retry(5)] .
    have pos: "1 \<le> length (apiCalls rest)"
      using retryLoop_calls_bound [OF le retry(5)] by simp
    have tr: "tr = ApiCall (Inl e) # onRetryEvents onRetry attempt
                @ [ConsoleWarn (2 ^ (attempt - 1)) attempt (MAX_RETRIES - 1), Sleep (1000 * 2 ^ (attempt - 1))]
                @ rest"
      using retry(6) less.prems(2) by simp
    obtain n where n: "length (apiCalls rest) = Suc n"
      using pos by (cases "length (apiCalls rest)") auto
    have "[attempt..<attempt + length (apiCalls rest)]
            = attempt # [attempt + 1..<attempt + 1 + (length (apiCalls rest) - 1)]"
      unfolding n by (simp add: upt_conv_Cons)
    then show ?thesis
      using ih by (simp add: tr trace_simps split: option.split)
  qed (use less.prems in \<open>auto split: option.split\<close>)
qed

text \<open>An invocation that returns a value is the last event of the run, and its value is
  the result.\<close>

lemma retryLoop_resolved_last:
  "attempt \<le> MAX_RETRIES \<Longrightarrow> retryLoop apiCall onRetry attempt lastError s = (r, s', tr) \<Longrightarrow>
   i < length (apiCalls tr) \<Longrightarrow> apiCalls tr ! i = Inr v \<Longrightarrow>
   r = Inr v \<and> length (apiCalls tr) = Suc i \<and> last tr = ApiCall (Inr v)"
proof (induction "MAX_RETRIES - attempt" arbitrary: attempt lastError s r s' tr i rule: less_induct)
  case less
  from less.prems(1) show ?case
  proof (cases rule: retryLoop_cases [where apiCall = apiCall and s = s and onRetry = onRetry
          and lastError = lastError])
    case (retry e s1 r' s3 rest)
    have lt: "MAX_RETRIES - (attempt + 1) < MAX_RETRIES - attempt" using retry(4) by simp
    have le: "attempt + 1 \<le> MAX_RETRIES" using retry(4) by simp
    have tr: "tr = ApiCall (Inl e) # onRetryEvents onRetry attempt
                @ [ConsoleWarn (2 ^ (attempt - 1)) attempt (MAX_RETRIES - 1), Sleep (1000 * 2 ^ (attempt - 1))]
                @ rest"
      and r: "r = r'"
      using retry(6) less.prems(2) by simp_all
    have calls: "apiCalls tr = Inl e # apiCalls rest"
      by (simp add: tr trace_simps)
    have ne: "rest \<noteq> []"
      using retryLoop_trace_nonempty [OF le retry(5)] .
    from less.prems(3,4) calls obtain j where j: "i = Suc j" "j < length (apiCalls rest)" "apiCalls rest ! j = Inr v"
      by (cases i) auto
    from less.hyps [OF lt le retry(5) j(2) j(3)]
    have "r' = Inr v \<and> length (apiCalls rest) = Suc j \<and> last rest = ApiCall (Inr v)" .
    moreover have "last tr = last rest"
      using ne by (simp add: tr)
    ultimately show ?thesis
      by (simp add: r calls j(1))
  qed (use less.prems in auto)
qed

text \<open>An invocation that fails with an invalid-input message is the last event of the
  run, whose result is the \<open>InvalidInputError\<close>.\<close>

lemma retryLoop_invalid_last:
  "attempt \<le> MAX_RETRIES \<Longrightarrow> retryLoop apiCall onRetry attempt lastError s = (r, s', tr) \<Longrightarrow>
   i < length (apiCalls tr) \<Longrightarrow> apiCalls tr ! i = Inl e \<Longrightarrow> matchesInvalidInput (lowerMessage e) \<Longrightarrow>
   r = Inl (InvalidInputError invalidInputMessage) \<and> length (apiCalls tr) = Suc i
     \<and> last tr = ApiCall (Inl e)"
proof (induction "MAX_RETRIES - attempt" arbitrary: attempt lastError s r s' tr i rule: less_induct)
  case less
  from less.prems(1) show ?case
  proof (cases rule: retryLoop_cases [where apiCall = apiCall and s = s and onRetry = onRetry
          and lastError = lastError])
    case (retry e0 s1 r' s3 rest)
    have lt: "MAX_RETRIES - (attempt + 1) < MAX_RETRIES - attempt" using retry(4) by simp
    have le: "attempt + 1 \<le> MAX_RETRIES" using retry(4) by simp
    have tr: "tr = ApiCall (Inl e0) # onRetryEvents onRetry attempt
                @ [ConsoleWarn (2 ^ (attempt - 1)) attempt (MAX_RETRIES - 1), Sleep (1000 * 2 ^ (attempt - 1))]
                @ rest"
      and r: "r = r'"
      using retry(6) less.prems(2) by simp_all
    have calls: "apiCalls tr = Inl e0 # apiCalls rest"
      by (simp add: tr trace_simps)
    have ne: "rest \<noteq> []"
      using retryLoop_trace_nonempty [OF le retry(5)] .
    from less.prems(3,4,5) calls retry(2)
    obtain j where j: "i = Suc j" "j < length (apiCalls rest)" "apiCalls rest ! j = Inl e"
      by (cases i) auto
    from less.hyps [OF lt le retry(5) j(2) j(3) less.prems(5)]
    have "r' = Inl (InvalidInputError invalidInputMessage) \<and> length (apiCalls rest) = Suc j
            \<and> last rest = ApiCall (Inl e)" .
    moreover have "last tr = last rest"
      using ne by (simp add: tr)
    ultimately show ?thesis
      by (simp add: r calls j(1))
  qed (use less.prems in auto)
qed

text \<open>When the last invocation fails with a rate-limit message that is not an
  invalid-input message, it was the last allowed attempt, and the result is the
  \<open>RateLimitError\<close>, whatever else the message matches.\<close>

lemma retryLoop_rate_last:
  "attempt \<le> MAX_RETRIES \<Longrightarrow> retryLoop apiCall onRetry attempt lastError s = (r, s', tr) \<Longrightarrow>
   last (apiCalls tr) = Inl e \<Longrightarrow> matchesRateLimit (lowerMessage e) \<Longrightarrow>
   \<not> matchesInvalidInput (lowerMessage e) \<Longrightarrow>
   r = Inl (RateLimitError rateLimitDefault) \<and> attempt + length (apiCalls tr) = MAX_RETRIES + 1"
proof (induction "MAX_RETRIES - attempt" arbitrary: attempt lastError s r s' tr rule: less_induct)
  case less
  from less.prems(1) show ?case
  proof (cases rule: retryLoop_cases [where apiCall = apiCall and s = s and onRetry = onRetry
          and lastError = lastError])
    case (retry e0 s1 r' s3 rest)
    have lt: "MAX_RETRIES - (attempt + 1) < MAX_RETRIES - attempt" using retry(4) by simp
    have le: "attempt + 1 \<le> MAX_RETRIES" using retry(4) by simp
    have tr: "tr = ApiCall (Inl e0) # onRetryEvents onRetry attempt
                @ [ConsoleWarn (2 ^ (attempt - 1)) attempt (MAX_RETRIES - 1), Sleep (1000 * 2 ^ (attempt - 1))]
                @ rest"
      and r: "r = r'"
      using retry(6) less.prems(2) by simp_all
    have calls: "apiCalls tr = Inl e0 # apiCalls rest"
      by (simp add: tr trace_simps)
    have pos: "apiCalls rest \<noteq> []"
      using retryLoop_calls_bound [OF le retry(5)] by auto
    then have "last (apiCalls rest) = Inl e"
      using less.prems(3) calls by simp
    from less.hyps [OF lt le retry(5) this less.prems(4) less.prems(5)]
    show ?thesis
      by (simp add: r calls)
  qed (use less.prems in auto)
qed

text \<open>Likewise for a message that matches a server-error substring only: the result is
  the \<open>ServerError\<close>.\<close>

lemma retryLoop_server_last:
  "attempt \<le> MAX_RETRIES \<Longrightarrow> retryLoop apiCall onRetry attempt lastError s = (r, s', tr) \<Longrightarrow>
   last (apiCalls tr) = Inl e \<Longrightarrow> matchesServer (lowerMessage e) \<Longrightarrow>
   \<not> matchesRateLimit (lowerMessage e) \<Longrightarrow> \<not> matchesInvalidInput (lowerMessage e) \<Longrightarrow>
   r = Inl (ServerError serverDefault) \<and> attempt + length (apiCalls tr) = MAX_RETRIES + 1"
proof (induction "MAX_RETRIES - attempt" arbitrary: attempt lastError s r s' tr rule: less_induct)
  case less
  from less.prems(1) show ?case
  proof (cases rule: retryLoop_cases [where apiCall = apiCall and s = s and onRetry = onRetry
          and lastError = lastError])
    case (retry e0 s1 r' s3 rest)
    have lt: "MAX_RETRIES - (attempt + 1) < MAX_RETRIES - attempt" using retry(4) by simp
    have le: "attempt + 1 \<le> MAX_RETRIES" using retry(4) by simp
    have tr: "tr = ApiCall (Inl e0) # onRetryEvents onRetry attempt
                @ [ConsoleWarn (2 ^ (attempt - 1)) attempt (MAX_RETRIES - 1), Sleep (1000 * 2 ^ (attempt - 1))]
                @ rest"
      and r: "r = r'"
      using retry(6) less.prems(2) by simp_all
    have calls: "apiCalls tr = Inl e0 # apiCalls rest"
      by (simp add: tr trace_simps)
    have pos: "apiCalls rest \<noteq> []"
      using retryLoop_calls_bound [OF le retry(5)] by auto
    then have "last (apiCalls rest) = Inl e"
      using less.prems(3) calls by simp
    from less.hyps [OF lt le retry(5) this less.prems(4) less.prems(5) less.prems(6)]
    show ?thesis
      by (simp add: r calls)
  qed (use less.prems in auto)
qed

section \<open>The thunks of the service operations\<close>

text \<open>The messages of the two failures that the operations raise themselves match none of
  the substrings.\<close>

lemma noImageMessage_unclassified:
  "\<not> matchesInvalidInput (lowerMessage (PlainError (Some noImageMessage)))
   \<and> \<not> matchesRateLimit (lowerMessage (PlainError (Some noImageMessage)))
   \<and> \<not> matchesServer (lowerMessage (PlainError (Some noImageMessage)))"
  by code_simp

lemma invalidFormatMessage_unclassified:
  "\<not> matchesInvalidInput (lowerMessage (PlainError (Some invalidFormatMessage)))
   \<and> \<not> matchesRateLimit (lowerMessage (PlainError (Some invalidFormatMessage)))
   \<and> \<not> matchesServer (lowerMessage (PlainError (Some invalidFormatMessage)))"
  by code_simp

text \<open>What the thunks return once the remote service has answered.\<close>

lemma styledImageCall_answered:
  assumes "createImagePart env modelImage = Inr mp"
    and "createImagePart env clothingImage = Inr cp"
    and "generateContent env (styledImageRequest mp cp) (world st) = (Inr response, w)"
  shows "styledImageCall env modelImage clothingImage st
           = (case (case firstPart response of None \<Rightarrow> None | Some p \<Rightarrow> inlineData p) of
                Some b \<Rightarrow> Inr (stringifyImage b)
              | None \<Rightarrow> Inl (PlainError (Some noImageMessage)),
              \<lparr>world = w, requests = requests st @ [styledImageRequest mp cp]\<rparr>)"
  using assms by (simp add: styledImageCall_def sendRequest_def split: option.split)

lemma trendCall_answered:
  assumes "createImagePart env generatedImage = Inr ip"
    and "generateContent env (trendRequest ip) (world st) = (Inr response, w)"
  shows "trendCall env generatedImage st
           = (case (case responseText response of
                      None \<Rightarrow> None
                    | Some t \<Rightarrow> (case JSON_parse env (trim env t) of Inl m \<Rightarrow> None | Inr v \<Rightarrow> Some v)) of
                Some v \<Rightarrow> Inr v
              | None \<Rightarrow> Inl (PlainError (Some invalidFormatMessage)),
              \<lparr>world = w, requests = requests st @ [trendRequest ip]\<rparr>)"
  using assms by (simp add: trendCall_def sendRequest_def split: option.split sum.split)






section \<open>The messages of the concrete runs\<close>

lemma quota_message:
  "matchesRateLimit (lowerMessage quotaExhausted) \<and> \<not> matchesInvalidInput (lowerMessage quotaExhausted)"
  by code_simp

lemma unavailable_message:
  "matchesServer (lowerMessage unavailable) \<and> \<not> matchesRateLimit (lowerMessage unavailable)
   \<and> \<not> matchesInvalidInput (lowerMessage unavailable)"
  by code_simp

lemma bad_request_message: "matchesInvalidInput (lowerMessage badRequest)"
  by code_simp

lemma both_400_and_429_message:
  "matchesInvalidInput (lowerMessage badRequestAfter429) \<and> matchesRateLimit (lowerMessage badRequestAfter429)"
  by code_simp

lemma both_quota_and_503_message:
  "matchesRateLimit (lowerMessage quotaAnd503) \<and> matchesServer (lowerMessage quotaAnd503)
   \<and> \<not> matchesInvalidInput (lowerMessage quotaAnd503)"
  by code_simp



section \<open>Retries until the attempts are used up\<close>

text \<open>
  C1. When every invocation of the thunk in a run fails with a message that contains \<open>429\<close>,
  \<open>quota\<close> or \<open>resource_exhausted\<close> (whatever the case of its letters) and neither \<open>400\<close>
  nor \<open>invalid argument\<close>, \<open>callGeminiWithRetry\<close> invokes the thunk exactly three times and
  rejects with the \<open>RateLimitError\<close>. When every invocation fails with a message that
  contains \<open>500\<close>, \<open>503\<close> or \<open>service unavailable\<close> and none of the rate-limit and
  invalid-input substrings, it invokes the thunk exactly three times and rejects with the
  \<open>ServerError\<close>.
\<close>

theorem retries_exhausted_then_classified:
  "(callGeminiWithRetry apiCall onRetry s = (r, s', tr)
      \<and> (\<forall>outcome \<in> set (apiCalls tr).
            \<exists>e. outcome = Inl e \<and> matchesRateLimit (lowerMessage e)
                \<and> \<not> matchesInvalidInput (lowerMessage e))
     \<longrightarrow> r = Inl (RateLimitError rateLimitDefault) \<and> length (apiCalls tr) = 3)
   \<and> (callGeminiWithRetry apiCall2 onRetry2 s2 = (r2, s2', tr2)
      \<and> (\<forall>outcome \<in> set (apiCalls tr2).
            \<exists>e. outcome = Inl e \<and> matchesServer (lowerMessage e)
                \<and> \<not> matchesRateLimit (lowerMessage e) \<and> \<not> matchesInvalidInput (lowerMessage e))
     \<longrightarrow> r2 = Inl (ServerError serverDefault) \<and> length (apiCalls tr2) = 3)"
proof (intro conjI impI)
  have le: "1 \<le> MAX_RETRIES" by (simp add: MAX_RETRIES_def)
  {
    assume h: "callGeminiWithRetry apiCall onRetry s = (r, s', tr)
      \<and> (\<forall>outcome \<in> set (apiCalls tr).
            \<exists>e. outcome = Inl e \<and> matchesRateLimit (lowerMessage e)
                \<and> \<not> matchesInvalidInput (lowerMessage e))"
    then have run: "retryLoop apiCall onRetry 1 None s = (r, s', tr)"
      by (simp add: callGeminiWithRetry_def)
    have "apiCalls tr \<noteq> []"
      using retryLoop_calls_bound [OF le run] by auto
    then have "last (apiCalls tr) \<in> set (apiCalls tr)"
      by simp
    with h obtain e where e: "last (apiCalls tr) = Inl e" "matchesRateLimit (lowerMessage e)"
      "\<not> matchesInvalidInput (lowerMessage e)"
      by blast
    from retryLoop_rate_last [OF le run e]
    show "r = Inl (RateLimitError rateLimitDefault)" and "length (apiCalls tr) = 3"
      by (simp_all add: MAX_RETRIES_def)
  }
  {
    assume h: "callGeminiWithRetry apiCall2 onRetry2 s2 = (r2, s2', tr2)
      \<and> (\<forall>outcome \<in> set (apiCalls tr2).
            \<exists>e. outcome = Inl e \<and> matchesServer (lowerMessage e)
                \<and> \<not> matchesRateLimit (lowerMessage e) \<and> \<not> matchesInvalidInput (lowerMessage e))"
    then have run: "retryLoop apiCall2 onRetry2 1 None s2 = (r2, s2', tr2)"
      by (simp add: callGeminiWithRetry_def)
    have "apiCalls tr2 \<noteq> []"
      using retryLoop_calls_bound [OF le run] by auto
    then have "last (apiCalls tr2) \<in> set (apiCalls tr2)"
      by simp
    with h obtain e where e: "last (apiCalls tr2) = Inl e" "matchesServer (lowerMessage e)"
      "\<not> matchesRateLimit (lowerMessage e)" "\<not> matchesInvalidInput (lowerMessage e)"
      by blast
    from retryLoop_server_last [OF le run e]
    show "r2 = Inl (ServerError serverDefault)" and "length (apiCalls tr2) = 3"
      by (simp_all add: MAX_RETRIES_def)
  }
qed

theorem retries_exhausted_then_classified_witness:
  "callGeminiWithRetry (alwaysFails quotaExhausted) (Some noteRetry) (0, [])
     = (Inl (RateLimitError rateLimitDefault), (3, [1, 2]), quotaThrice)
   \<and> apiCalls quotaThrice = [Inl quotaExhausted, Inl quotaExhausted, Inl quotaExhausted]
   \<and> matchesRateLimit (lowerMessage quotaExhausted)
   \<and> \<not> matchesInvalidInput (lowerMessage quotaExhausted)
   \<and> callGeminiWithRetry (alwaysFails unavailable) None (0, [])
     = (Inl (ServerError serverDefault), (3, []), unavailableThrice)
   \<and> apiCalls unavailableThrice = [Inl unavailable, Inl unavailable, Inl unavailable]
   \<and> matchesServer (lowerMessage unavailable)
   \<and> \<not> matchesRateLimit (lowerMessage unavailable)
   \<and> \<not> matchesInvalidInput (lowerMessage unavailable)
   \<and> length (apiCalls quotaThrice) = 3
   \<and> length (apiCalls unavailableThrice) = 3"
proof -
  have runA: "callGeminiWithRetry (alwaysFails quotaExhausted) (Some noteRetry) (0, [])
      = (Inl (RateLimitError rateLimitDefault), (3, [1, 2]), quotaThrice)"
    by code_simp
  have runB: "callGeminiWithRetry (alwaysFails unavailable) None (0, [])
      = (Inl (ServerError serverDefault), (3, []), unavailableThrice)"
    by code_simp
  have callsA: "apiCalls quotaThrice = [Inl quotaExhausted, Inl quotaExhausted, Inl quotaExhausted]"
    by (simp add: quotaThrice_def)
  have callsB: "apiCalls unavailableThrice = [Inl unavailable, Inl unavailable, Inl unavailable]"
    by (simp add: unavailableThrice_def)
  have hA: "callGeminiWithRetry (alwaysFails quotaExhausted) (Some noteRetry) (0, [])
      = (Inl (RateLimitError rateLimitDefault), (3, [1, 2]), quotaThrice)
    \<and> (\<forall>outcome \<in> set (apiCalls quotaThrice).
          \<exists>e. outcome = Inl e \<and> matchesRateLimit (lowerMessage e)
              \<and> \<not> matchesInvalidInput (lowerMessage e))"
    using runA quota_message by (simp add: callsA)
  have hB: "callGeminiWithRetry (alwaysFails unavailable) None (0, [])
      = (Inl (ServerError serverDefault), (3, []), unavailableThrice)
    \<and> (\<forall>outcome \<in> set (apiCalls unavailableThrice).
          \<exists>e. outcome = Inl e \<and> matchesServer (lowerMessage e)
              \<and> \<not> matchesRateLimit (lowerMessage e) \<and> \<not> matchesInvalidInput (lowerMessage e))"
    using runB unavailable_message by (simp add: callsB)
  note inst = retries_exhausted_then_classified
    [of "alwaysFails quotaExhausted" "Some noteRetry" "(0, [])"
        "Inl (RateLimitError rateLimitDefault)" "(3, [1, 2])" quotaThrice
        "alwaysFails unavailable" None "(0, [])"
        "Inl (ServerError serverDefault)" "(3, [])" unavailableThrice]
  from inst hA hB have "length (apiCalls quotaThrice) = 3 \<and> length (apiCalls unavailableThrice) = 3"
    by blast
  with runA runB callsA callsB quota_message unavailable_message show ?thesis
    by blast
qed

section \<open>Invalid input\<close>

text \<open>
  C2. When, in a run of \<open>callGeminiWithRetry\<close>, an invocation of the thunk fails with a
  message that contains \<open>400\<close> or \<open>invalid argument\<close> (whatever the case of its letters), the
  run rejects with the \<open>InvalidInputError\<close> on that attempt, whichever attempt it is: the
  failed invocation is the last one and the last event of the run. Invocation \<open>i\<close> counts
  from 0, so the first attempt is \<open>i = 0\<close>: then the thunk has been invoked once, and
  \<open>onRetry\<close> and \<open>sleep\<close> not at all.
\<close>

theorem invalid_input_rejects_at_once:
  assumes "callGeminiWithRetry apiCall onRetry s = (r, s', tr)"
    and "i < length (apiCalls tr)"
    and "apiCalls tr ! i = Inl e"
    and "matchesInvalidInput (lowerMessage e)"
  shows "r = Inl (InvalidInputError invalidInputMessage) \<and> length (apiCalls tr) = Suc i
           \<and> last tr = ApiCall (Inl e) \<and> length (onRetryArgs tr) \<le> i \<and> length (sleepDelays tr) = i"
proof -
  have le: "1 \<le> MAX_RETRIES" by (simp add: MAX_RETRIES_def)
  have run: "retryLoop apiCall onRetry 1 None s = (r, s', tr)"
    using assms(1) by (simp add: callGeminiWithRetry_def)
  from retryLoop_invalid_last [OF le run assms(2) assms(3) assms(4)]
  have main: "r = Inl (InvalidInputError invalidInputMessage)" "length (apiCalls tr) = Suc i"
    "last tr = ApiCall (Inl e)"
    by simp_all
  have "length (sleepDelays tr) = i"
    using retryLoop_sleepDelays [OF le run] main(2) by simp
  moreover have "length (onRetryArgs tr) \<le> i"
    using retryLoop_onRetryArgs [OF le run] main(2) by (simp split: option.split)
  ultimately show ?thesis using main by simp
qed

theorem invalid_input_rejects_at_once_witness:
  "callGeminiWithRetry (alwaysFails badRequest) (Some noteRetry) (0, [])
     = (Inl (InvalidInputError invalidInputMessage), (1, []), [ApiCall (Inl badRequest)])
   \<and> (0::nat) < length (apiCalls [ApiCall (Inl badRequest) :: string event])
   \<and> apiCalls [ApiCall (Inl badRequest) :: string event] ! 0 = Inl badRequest
   \<and> matchesInvalidInput (lowerMessage badRequest)
   \<and> length (apiCalls [ApiCall (Inl badRequest) :: string event]) = Suc 0
   \<and> length (onRetryArgs [ApiCall (Inl badRequest) :: string event]) \<le> 0
   \<and> length (sleepDelays [ApiCall (Inl badRequest) :: string event]) = 0"
proof -
  have run: "callGeminiWithRetry (alwaysFails badRequest) (Some noteRetry) (0, [])
               = (Inl (InvalidInputError invalidInputMessage), (1, []), [ApiCall (Inl badRequest)])"
    by code_simp
  have i: "(0::nat) < length (apiCalls [ApiCall (Inl badRequest) :: string event])"
    by simp
  have nth: "apiCalls [ApiCall (Inl badRequest) :: string event] ! 0 = Inl badRequest"
    by simp
  from invalid_input_rejects_at_once [OF run i nth bad_request_message]
  show ?thesis using run i nth bad_request_message by blast
qed

section \<open>Success\<close>

text \<open>
  C3. In every run of \<open>callGeminiWithRetry\<close> the thunk is invoked at most three times.
  When its \<open>k\<close>-th invocation returns a value, that value is the result of the run, the
  thunk has been invoked exactly \<open>k\<close> times, and the successful invocation is the last event
  of the run: no call of \<open>onRetry\<close> comes after it.
\<close>

theorem success_ends_the_run:
  assumes "callGeminiWithRetry apiCall onRetry s = (r, s', tr)"
  shows "length (apiCalls tr) \<le> 3
         \<and> (1 \<le> k \<and> k \<le> length (apiCalls tr) \<and> apiCalls tr ! (k - 1) = Inr v
              \<longrightarrow> r = Inr v \<and> length (apiCalls tr) = k \<and> last tr = ApiCall (Inr v))"
proof -
  have le: "1 \<le> MAX_RETRIES" by (simp add: MAX_RETRIES_def)
  have run: "retryLoop apiCall onRetry 1 None s = (r, s', tr)"
    using assms by (simp add: callGeminiWithRetry_def)
  have "length (apiCalls tr) \<le> 3"
    using retryLoop_calls_bound [OF le run] by (simp add: MAX_RETRIES_def)
  moreover have "r = Inr v \<and> length (apiCalls tr) = k \<and> last tr = ApiCall (Inr v)"
    if "1 \<le> k" "k \<le> length (apiCalls tr)" "apiCalls tr ! (k - 1) = Inr v"
  proof -
    from that have "k - 1 < length (apiCalls tr)" by simp
    from retryLoop_resolved_last [OF le run this that(3)] that(1) show ?thesis by simp
  qed
  ultimately show ?thesis by blast
qed

theorem success_ends_the_run_witness:
  "callGeminiWithRetry (scripted [Inl unavailable, Inr ''styled'']) (Some noteRetry) (0, [])
     = (Inr ''styled'', (2, [1]), retriedOnce)
   \<and> ((1::nat) \<le> 2 \<and> 2 \<le> length (apiCalls retriedOnce) \<and> apiCalls retriedOnce ! (2 - 1) = Inr ''styled'')
   \<and> length (apiCalls retriedOnce) \<le> 3
   \<and> length (apiCalls retriedOnce) = 2
   \<and> last retriedOnce = ApiCall (Inr ''styled'')"
proof -
  have run: "callGeminiWithRetry (scripted [Inl unavailable, Inr ''styled'']) (Some noteRetry) (0, [])
               = (Inr ''styled'', (2, [1]), retriedOnce)"
    by code_simp
  have hyp: "(1::nat) \<le> 2 \<and> 2 \<le> length (apiCalls retriedOnce)
               \<and> apiCalls retriedOnce ! (2 - 1) = Inr ''styled''"
    by (simp add: retriedOnce_def)
  from success_ends_the_run [OF run, of 2 "''styled''"] hyp run show ?thesis
    by blast
qed

section \<open>Backoff\<close>

text \<open>
  C4. The delays given to \<open>sleep\<close> in one run are \<open>1000 * 2 ^ (k - 1)\<close> milliseconds for
  the attempts \<open>k\<close> that were retried, in order: none, 1000, or 1000 and then 2000. Their
  sum is at most 3000.
\<close>

theorem backoff_doubles_from_one_second:
  assumes "callGeminiWithRetry apiCall onRetry s = (r, s', tr)"
  shows "sleepDelays tr = map (\<lambda>k. 1000 * 2 ^ (k - 1)) [1..<length (apiCalls tr)]
         \<and> (sleepDelays tr = [] \<or> sleepDelays tr = [1000] \<or> sleepDelays tr = [1000, 2000])
         \<and> sum_list (sleepDelays tr) \<le> 3000"
proof -
  have le: "1 \<le> MAX_RETRIES" by (simp add: MAX_RETRIES_def)
  have run: "retryLoop apiCall onRetry 1 None s = (r, s', tr)"
    using assms by (simp add: callGeminiWithRetry_def)
  have n: "1 \<le> length (apiCalls tr)" "length (apiCalls tr) \<le> 3"
    using retryLoop_calls_bound [OF le run] by (simp_all add: MAX_RETRIES_def)
  have idx: "1 + (length (apiCalls tr) - 1) = length (apiCalls tr)"
    using n(1) by simp
  have eq: "sleepDelays tr = map (\<lambda>k. 1000 * 2 ^ (k - 1)) [1..<length (apiCalls tr)]"
    using retryLoop_sleepDelays [OF le run] by (simp only: idx)
  from n have "length (apiCalls tr) = 1 \<or> length (apiCalls tr) = 2 \<or> length (apiCalls tr) = 3"
    by arith
  then have "sleepDelays tr = [] \<or> sleepDelays tr = [1000] \<or> sleepDelays tr = [1000, 2000]"
  proof (elim disjE)
    assume "length (apiCalls tr) = 1"
    with eq show ?thesis by simp
  next
    assume "length (apiCalls tr) = 2"
    with eq show ?thesis by (simp add: upt_conv_Cons)
  next
    assume "length (apiCalls tr) = 3"
    with eq show ?thesis by (simp add: upt_conv_Cons)
  qed
  moreover from this have "sum_list (sleepDelays tr) \<le> 3000" by auto
  ultimately show ?thesis using eq by blast
qed

theorem backoff_doubles_from_one_second_witness:
  "callGeminiWithRetry (scripted [Inl unavailable, Inl overQuota, Inr ''ok'']) (Some noteRetry) (0, [])
     = (Inr ''ok'', (3, [1, 2]), retriedTwice)
   \<and> sleepDelays retriedTwice = map (\<lambda>k. 1000 * 2 ^ (k - 1)) [1..<length (apiCalls retriedTwice)]
   \<and> sum_list (sleepDelays retriedTwice) \<le> 3000"
proof -
  have run: "callGeminiWithRetry (scripted [Inl unavailable, Inl overQuota, Inr ''ok'']) (Some noteRetry) (0, [])
               = (Inr ''ok'', (3, [1, 2]), retriedTwice)"
    by code_simp
  from backoff_doubles_from_one_second [OF run] run show ?thesis
    by blast
qed

section \<open>The order of the calls\<close>

text \<open>
  C5. With a callback given, the calls that a run makes to the thunk, to \<open>onRetry\<close> and to
  \<open>sleep\<close> have one of three shapes, by the number of retries. Each retry is a failed
  invocation followed by exactly one call of \<open>onRetry\<close>, then the sleep, then the next
  invocation. The argument of \<open>onRetry\<close> is the number of the attempt that failed and is
  tried again, counted from 1, which is also the number of the retry about to be made (the
  application shows it as \<open>Attempt 1/2\<close>, \<open>Attempt 2/2\<close>). Between the call of \<open>onRetry\<close> and
  the sleep the loop only writes its warning to the console, which \<open>calls\<close> leaves out.
\<close>

theorem onRetry_immediately_before_sleep:
  assumes "callGeminiWithRetry apiCall (Some f) s = (r, s', tr)"
  shows "(\<exists>o1. calls tr = [ApiCall o1])
         \<or> (\<exists>e1 o2. calls tr = [ApiCall (Inl e1), OnRetry 1, Sleep 1000, ApiCall o2])
         \<or> (\<exists>e1 e2 o3. calls tr = [ApiCall (Inl e1), OnRetry 1, Sleep 1000,
                                    ApiCall (Inl e2), OnRetry 2, Sleep 2000, ApiCall o3])"
proof -
  have run1: "retryLoop apiCall (Some f) 1 None s = (r, s', tr)"
    using assms by (simp add: callGeminiWithRetry_def)
  from retryLoop_shape [OF _ run1]
  consider (stop1) o1 where "tr = [ApiCall o1]"
    | (retry1) e1 s1 rest1 where "retryLoop apiCall (Some f) 2 (Some e1) s1 = (r, s', rest1)"
        "tr = [ApiCall (Inl e1), OnRetry 1, ConsoleWarn 1 1 2, Sleep 1000] @ rest1"
    by (auto simp: MAX_RETRIES_def onRetryEvents_def numeral_2_eq_2 [symmetric])
  then show ?thesis
  proof cases
    case stop1
    then show ?thesis by simp
  next
    case retry1
    from retryLoop_shape [OF _ retry1(1)]
    consider (stop2) o2 where "rest1 = [ApiCall o2]"
      | (retry2) e2 s2 rest2 where "retryLoop apiCall (Some f) 3 (Some e2) s2 = (r, s', rest2)"
          "rest1 = [ApiCall (Inl e2), OnRetry 2, ConsoleWarn 2 2 2, Sleep 2000] @ rest2"
      by (auto simp: MAX_RETRIES_def onRetryEvents_def numeral_2_eq_2 [symmetric])
    then show ?thesis
    proof cases
      case stop2
      with retry1(2) show ?thesis by simp
    next
      case retry2
      from retryLoop_shape [OF _ retry2(1)]
      obtain o3 where "rest2 = [ApiCall o3]"
        by (auto simp: MAX_RETRIES_def)
      with retry1(2) retry2(2) show ?thesis by simp
    qed
  qed
qed

theorem onRetry_immediately_before_sleep_witness:
  "callGeminiWithRetry (scripted [Inl unavailable, Inl overQuota, Inr ''ok'']) (Some noteRetry) (0, [])
     = (Inr ''ok'', (3, [1, 2]), retriedTwice)
   \<and> ((\<exists>o1. calls retriedTwice = [ApiCall o1])
       \<or> (\<exists>e1 o2. calls retriedTwice = [ApiCall (Inl e1), OnRetry 1, Sleep 1000, ApiCall o2])
       \<or> (\<exists>e1 e2 o3. calls retriedTwice = [ApiCall (Inl e1), OnRetry 1, Sleep 1000,
                                               ApiCall (Inl e2), OnRetry 2, Sleep 2000, ApiCall o3]))"
proof -
  have run: "callGeminiWithRetry (scripted [Inl unavailable, Inl overQuota, Inr ''ok'']) (Some noteRetry) (0, [])
               = (Inr ''ok'', (3, [1, 2]), retriedTwice)"
    by code_simp
  show ?thesis
    by (rule conjI [OF run onRetry_immediately_before_sleep [OF run]])
qed

section \<open>The arguments of \<open>onRetry\<close>\<close>

text \<open>
  C6. The arguments given to \<open>onRetry\<close> in one run are none, 1, or 1 and then 2: they
  increase strictly, start at 1, and are at most two.
\<close>

theorem onRetry_arguments_count_up:
  assumes "callGeminiWithRetry apiCall onRetry s = (r, s', tr)"
  shows "(onRetryArgs tr = [] \<or> onRetryArgs tr = [1] \<or> onRetryArgs tr = [1, 2])
         \<and> sorted_wrt (<) (onRetryArgs tr) \<and> length (onRetryArgs tr) \<le> 2"
proof -
  have le: "1 \<le> MAX_RETRIES" by (simp add: MAX_RETRIES_def)
  have run: "retryLoop apiCall onRetry 1 None s = (r, s', tr)"
    using assms by (simp add: callGeminiWithRetry_def)
  have n: "1 \<le> length (apiCalls tr)" "length (apiCalls tr) \<le> 3"
    using retryLoop_calls_bound [OF le run] by (simp_all add: MAX_RETRIES_def)
  have idx: "1 + (length (apiCalls tr) - 1) = length (apiCalls tr)"
    using n(1) by simp
  have eq: "onRetryArgs tr = (case onRetry of None \<Rightarrow> [] | Some f \<Rightarrow> [1..<length (apiCalls tr)])"
    using retryLoop_onRetryArgs [OF le run] by (simp only: idx)
  from n have "length (apiCalls tr) = 1 \<or> length (apiCalls tr) = 2 \<or> length (apiCalls tr) = 3"
    by arith
  then have "onRetryArgs tr = [] \<or> onRetryArgs tr = [1] \<or> onRetryArgs tr = [1, 2]"
  proof (elim disjE)
    assume "length (apiCalls tr) = 1"
    with eq show ?thesis by (simp split: option.split)
  next
    assume "length (apiCalls tr) = 2"
    with eq show ?thesis by (simp add: upt_conv_Cons split: option.split)
  next
    assume "length (apiCalls tr) = 3"
    with eq show ?thesis by (simp add: upt_conv_Cons split: option.split)
  qed
  moreover from this have "sorted_wrt (<) (onRetryArgs tr) \<and> length (onRetryArgs tr) \<le> 2" by auto
  ultimately show ?thesis by blast
qed

theorem onRetry_arguments_count_up_witness:
  "callGeminiWithRetry (scripted [Inl unavailable, Inl overQuota, Inr ''ok'']) (Some noteRetry) (0, [])
     = (Inr ''ok'', (3, [1, 2]), retriedTwice)
   \<and> (onRetryArgs retriedTwice = [] \<or> onRetryArgs retriedTwice = [1] \<or> onRetryArgs retriedTwice = [1, 2])
   \<and> sorted_wrt (<) (onRetryArgs retriedTwice)
   \<and> length (onRetryArgs retriedTwice) \<le> 2"
proof -
  have run: "callGeminiWithRetry (scripted [Inl unavailable, Inl overQuota, Inr ''ok'']) (Some noteRetry) (0, [])
               = (Inr ''ok'', (3, [1, 2]), retriedTwice)"
    by code_simp
  from onRetry_arguments_count_up [OF run] run show ?thesis
    by blast
qed

section \<open>The styled image\<close>

text \<open>
  C7, as amended. Let the images parse and the remote service answer the request of some
  attempt with a response. If the first part of the first candidate of the response has
  inline data, \<open>generateStyledImage\<close> resolves with the JSON serialisation of its
  \<open>mimeType\<close> and \<open>data\<close>. Otherwise (no candidate, no content, no part, or a first part
  without inline data) it rejects with the base \<open>ApiError\<close> that carries the no-image
  message, which is none of \<open>RateLimitError\<close>, \<open>InvalidInputError\<close> and \<open>ServerError\<close>. In both
  cases the run ends with that invocation, which has sent one request: the failure is not
  retried.
\<close>

theorem styled_image_from_first_part:
  assumes "createImagePart env modelImage = Inr mp"
    and "createImagePart env clothingImage = Inr cp"
    and "generateContent env (styledImageRequest mp cp) (world st) = (Inr response, w)"
    and "attempt \<le> MAX_RETRIES"
  shows "retryLoop (styledImageCall env modelImage clothingImage) (liftOnRetry onRetry) attempt lastError st
           = (case (case firstPart response of None \<Rightarrow> None | Some p \<Rightarrow> inlineData p) of
                Some b \<Rightarrow>
                  (Inr (stringifyImage b),
                   \<lparr>world = w, requests = requests st @ [styledImageRequest mp cp]\<rparr>,
                   [ApiCall (Inr (stringifyImage b))])
              | None \<Rightarrow>
                  (Inl (ApiError noImageMessage),
                   \<lparr>world = w, requests = requests st @ [styledImageRequest mp cp]\<rparr>,
                   [ApiCall (Inl (PlainError (Some noImageMessage)))]))
         \<and> generateStyledImage env modelImage clothingImage onRetry st
           = (case (case firstPart response of None \<Rightarrow> None | Some p \<Rightarrow> inlineData p) of
                Some b \<Rightarrow>
                  (Inr (stringifyImage b),
                   \<lparr>world = w, requests = requests st @ [styledImageRequest mp cp]\<rparr>,
                   [ApiCall (Inr (stringifyImage b))])
              | None \<Rightarrow>
                  (Inl (ApiError noImageMessage),
                   \<lparr>world = w, requests = requests st @ [styledImageRequest mp cp]\<rparr>,
                   [ApiCall (Inl (PlainError (Some noImageMessage)))]))"
proof -
  have le: "1 \<le> MAX_RETRIES" by (simp add: MAX_RETRIES_def)
  note thunk = styledImageCall_answered [OF assms(1,2,3)]
  show ?thesis
  proof (cases "case firstPart response of None \<Rightarrow> None | Some p \<Rightarrow> inlineData p")
    case None
    with thunk have call: "styledImageCall env modelImage clothingImage st
        = (Inl (PlainError (Some noImageMessage)),
           \<lparr>world = w, requests = requests st @ [styledImageRequest mp cp]\<rparr>)"
      by simp
    from retryLoop_other [where apiCall = "styledImageCall env modelImage clothingImage" and s = st,
        OF assms(4) call]
      retryLoop_other [where apiCall = "styledImageCall env modelImage clothingImage" and s = st,
        OF le call]
      noImageMessage_unclassified None
    show ?thesis
      by (simp add: generateStyledImage_def callGeminiWithRetry_def newApiError_def)
  next
    case (Some b)
    with thunk have call: "styledImageCall env modelImage clothingImage st
        = (Inr (stringifyImage b), \<lparr>world = w, requests = requests st @ [styledImageRequest mp cp]\<rparr>)"
      by simp
    from retryLoop_resolved [where apiCall = "styledImageCall env modelImage clothingImage" and s = st,
        OF assms(4) call]
      retryLoop_resolved [where apiCall = "styledImageCall env modelImage clothingImage" and s = st,
        OF le call]
      Some
    show ?thesis
      by (simp add: generateStyledImage_def callGeminiWithRetry_def)
  qed
qed

theorem styled_image_from_first_part_witness:
  "createImagePart (stubEnv imageResponse) pngImage = Inr pngPart
   \<and> generateContent (stubEnv imageResponse) (styledImageRequest pngPart pngPart) (world session0)
       = (Inr imageResponse, 1)
   \<and> (2::nat) \<le> MAX_RETRIES
   \<and> generateStyledImage (stubEnv imageResponse) pngImage pngImage None session0
       = (Inr pngImage, \<lparr>world = 1, requests = [styledImageRequest pngPart pngPart]\<rparr>,
          [ApiCall (Inr pngImage)])"
proof -
  have h1: "createImagePart (stubEnv imageResponse) pngImage = Inr pngPart"
    by code_simp
  have h3: "generateContent (stubEnv imageResponse) (styledImageRequest pngPart pngPart) (world session0)
              = (Inr imageResponse, 1)"
    by (simp add: stubEnv_def session0_def)
  have h4: "(2::nat) \<le> MAX_RETRIES"
    by (simp add: MAX_RETRIES_def)
  from styled_image_from_first_part [OF h1 h1 h3 h4, of None None]
  have "generateStyledImage (stubEnv imageResponse) pngImage pngImage None session0
       = (Inr pngImage, \<lparr>world = 1, requests = [styledImageRequest pngPart pngPart]\<rparr>,
          [ApiCall (Inr pngImage)])"
    by (simp add: firstPart_def imageResponse_def session0_def pngImage_def)
  with h1 h3 h4 show ?thesis by blast
qed

text \<open>
  The operation looks at the first part only. A response whose first part is text and
  whose second part is an image contains a part with inline image data, and the operation
  rejects.
\<close>

theorem image_in_later_part_counterexample:
  "spec_imageParts textThenImageResponse = [pngBlob]
   \<and> fst (generateStyledImage (stubEnv textThenImageResponse) pngImage pngImage None session0)
       = Inl (ApiError noImageMessage)"
  by code_simp

section \<open>The trend analysis\<close>

text \<open>
  C8, as amended. Let the image parse and the remote service answer the request of some
  attempt with a response. \<open>analyzeTrend\<close> resolves with the parsed value exactly when the
  response has a text whose trimmed form parses as JSON; the value is not checked against
  the declared schema. If the text is absent or does not parse, it rejects with the base
  \<open>ApiError\<close> that carries the invalid-format message, which is none of \<open>RateLimitError\<close>,
  \<open>InvalidInputError\<close> and \<open>ServerError\<close>. In both cases the run ends with that invocation:
  the failure is not retried.
\<close>

theorem trend_is_the_parsed_text:
  assumes "createImagePart env generatedImage = Inr ip"
    and "generateContent env (trendRequest ip) (world st) = (Inr response, w)"
    and "attempt \<le> MAX_RETRIES"
  shows "retryLoop (trendCall env generatedImage) (liftOnRetry onRetry) attempt lastError st
           = (case (case responseText response of
                      None \<Rightarrow> None
                    | Some t \<Rightarrow> (case JSON_parse env (trim env t) of Inl m \<Rightarrow> None | Inr v \<Rightarrow> Some v)) of
                Some v \<Rightarrow>
                  (Inr v, \<lparr>world = w, requests = requests st @ [trendRequest ip]\<rparr>, [ApiCall (Inr v)])
              | None \<Rightarrow>
                  (Inl (ApiError invalidFormatMessage),
                   \<lparr>world = w, requests = requests st @ [trendRequest ip]\<rparr>,
                   [ApiCall (Inl (PlainError (Some invalidFormatMessage)))]))
         \<and> analyzeTrend env generatedImage onRetry st
           = (case (case responseText response of
                      None \<Rightarrow> None
                    | Some t \<Rightarrow> (case JSON_parse env (trim env t) of Inl m \<Rightarrow> None | Inr v \<Rightarrow> Some v)) of
                Some v \<Rightarrow>
                  (Inr v, \<lparr>world = w, requests = requests st @ [trendRequest ip]\<rparr>, [ApiCall (Inr v)])
              | None \<Rightarrow>
                  (Inl (ApiError invalidFormatMessage),
                   \<lparr>world = w, requests = requests st @ [trendRequest ip]\<rparr>,
                   [ApiCall (Inl (PlainError (Some invalidFormatMessage)))]))"
proof -
  have le: "1 \<le> MAX_RETRIES" by (simp add: MAX_RETRIES_def)
  note thunk = trendCall_answered [OF assms(1,2)]
  show ?thesis
  proof (cases "case responseText response of
                      None \<Rightarrow> None
                    | Some t \<Rightarrow> (case JSON_parse env (trim env t) of Inl m \<Rightarrow> None | Inr v \<Rightarrow> Some v)")
    case None
    with thunk have call: "trendCall env generatedImage st
        = (Inl (PlainError (Some invalidFormatMessage)),
           \<lparr>world = w, requests = requests st @ [trendRequest ip]\<rparr>)"
      by simp
    from retryLoop_other [where apiCall = "trendCall env generatedImage" and s = st, OF assms(3) call]
      retryLoop_other [where apiCall = "trendCall env generatedImage" and s = st, OF le call]
      invalidFormatMessage_unclassified None
    show ?thesis
      by (simp add: analyzeTrend_def callGeminiWithRetry_def newApiError_def)
  next
    case (Some v)
    with thunk have call: "trendCall env generatedImage st
        = (Inr v, \<lparr>world = w, requests = requests st @ [trendRequest ip]\<rparr>)"
      by simp
    from retryLoop_resolved [where apiCall = "trendCall env generatedImage" and s = st, OF assms(3) call]
      retryLoop_resolved [where apiCall = "trendCall env generatedImage" and s = st, OF le call]
      Some
    show ?thesis
      by (simp add: analyzeTrend_def callGeminiWithRetry_def)
  qed
qed

theorem trend_is_the_parsed_text_witness:
  "createImagePart (stubEnv (textResponse ('' '' @ trendText))) pngImage = Inr pngPart
   \<and> generateContent (stubEnv (textResponse ('' '' @ trendText))) (trendRequest pngPart) (world session0)
       = (Inr (textResponse ('' '' @ trendText)), 1)
   \<and> (3::nat) \<le> MAX_RETRIES
   \<and> analyzeTrend (stubEnv (textResponse ('' '' @ trendText))) pngImage None session0
       = (Inr trendValue, \<lparr>world = 1, requests = [trendRequest pngPart]\<rparr>, [ApiCall (Inr trendValue)])"
proof -
  have h1: "createImagePart (stubEnv (textResponse ('' '' @ trendText))) pngImage = Inr pngPart"
    by code_simp
  have h2: "generateContent (stubEnv (textResponse ('' '' @ trendText))) (trendRequest pngPart) (world session0)
              = (Inr (textResponse ('' '' @ trendText)), 1)"
    by (simp add: stubEnv_def session0_def)
  have h3: "(3::nat) \<le> MAX_RETRIES"
    by (simp add: MAX_RETRIES_def)
  have parsed: "JSON_parse (stubEnv (textResponse ('' '' @ trendText)))
                  (trim (stubEnv (textResponse ('' '' @ trendText))) ('' '' @ trendText)) = Inr trendValue"
    by code_simp
  from trend_is_the_parsed_text [OF h1 h2 h3, of None None] parsed
  have "analyzeTrend (stubEnv (textResponse ('' '' @ trendText))) pngImage None session0
       = (Inr trendValue, \<lparr>world = 1, requests = [trendRequest pngPart]\<rparr>, [ApiCall (Inr trendValue)])"
    by (simp add: textResponse_def session0_def)
  with h1 h2 h3 show ?thesis by blast
qed

text \<open>
  A text that parses as JSON and does not match the schema: an object whose \<open>score\<close> is a
  string and that has no \<open>analysis\<close>. The operation resolves with it.
\<close>

theorem off_schema_text_counterexample:
  "\<not> spec_matchesSchema offSchemaValue
   \<and> fst (analyzeTrend (stubEnv (textResponse offSchemaText)) pngImage None session0) = Inr offSchemaValue"
  by code_simp

section \<open>Which classification wins\<close>

text \<open>
  C9. A failure whose message matches an invalid-input substring and also a rate-limit or
  a server-error substring ends the run at once with the \<open>InvalidInputError\<close>. When the last
  invocation of a run fails with a message that matches both a rate-limit and a
  server-error substring (and no invalid-input substring), the run has used its three
  attempts and rejects with the \<open>RateLimitError\<close>, not the \<open>ServerError\<close>.
\<close>

theorem classification_precedence:
  "(callGeminiWithRetry apiCall onRetry s = (r, s', tr) \<and> i < length (apiCalls tr)
      \<and> apiCalls tr ! i = Inl e \<and> matchesInvalidInput (lowerMessage e)
      \<and> (matchesRateLimit (lowerMessage e) \<or> matchesServer (lowerMessage e))
     \<longrightarrow> r = Inl (InvalidInputError invalidInputMessage) \<and> length (apiCalls tr) = Suc i)
   \<and> (callGeminiWithRetry apiCall2 onRetry2 s2 = (r2, s2', tr2) \<and> last (apiCalls tr2) = Inl e2
      \<and> matchesRateLimit (lowerMessage e2) \<and> matchesServer (lowerMessage e2)
      \<and> \<not> matchesInvalidInput (lowerMessage e2)
     \<longrightarrow> r2 = Inl (RateLimitError rateLimitDefault) \<and> length (apiCalls tr2) = 3)"
proof (intro conjI impI)
  have le: "1 \<le> MAX_RETRIES" by (simp add: MAX_RETRIES_def)
  {
    assume h: "callGeminiWithRetry apiCall onRetry s = (r, s', tr) \<and> i < length (apiCalls tr)
      \<and> apiCalls tr ! i = Inl e \<and> matchesInvalidInput (lowerMessage e)
      \<and> (matchesRateLimit (lowerMessage e) \<or> matchesServer (lowerMessage e))"
    then have run: "retryLoop apiCall onRetry 1 None s = (r, s', tr)"
      by (simp add: callGeminiWithRetry_def)
    from retryLoop_invalid_last [OF le run] h
    show "r = Inl (InvalidInputError invalidInputMessage)" and "length (apiCalls tr) = Suc i"
      by blast+
  }
  {
    assume h: "callGeminiWithRetry apiCall2 onRetry2 s2 = (r2, s2', tr2) \<and> last (apiCalls tr2) = Inl e2
      \<and> matchesRateLimit (lowerMessage e2) \<and> matchesServer (lowerMessage e2)
      \<and> \<not> matchesInvalidInput (lowerMessage e2)"
    then have run: "retryLoop apiCall2 onRetry2 1 None s2 = (r2, s2', tr2)"
      by (simp add: callGeminiWithRetry_def)
    from retryLoop_rate_last [OF le run] h
    have "r2 = Inl (RateLimitError rateLimitDefault) \<and> 1 + length (apiCalls tr2) = MAX_RETRIES + 1"
      by blast
    then show "r2 = Inl (RateLimitError rateLimitDefault)" and "length (apiCalls tr2) = 3"
      by (simp_all add: MAX_RETRIES_def)
  }
qed

theorem classification_precedence_witness:
  "(callGeminiWithRetry (alwaysFails badRequestAfter429) (Some noteRetry) (0, [])
      = (Inl (InvalidInputError invalidInputMessage), (1, []), [ApiCall (Inl badRequestAfter429)])
    \<and> (0::nat) < length (apiCalls [ApiCall (Inl badRequestAfter429) :: string event])
    \<and> apiCalls [ApiCall (Inl badRequestAfter429) :: string event] ! 0 = Inl badRequestAfter429
    \<and> matchesInvalidInput (lowerMessage badRequestAfter429)
    \<and> (matchesRateLimit (lowerMessage badRequestAfter429) \<or> matchesServer (lowerMessage badRequestAfter429)))
   \<and> (callGeminiWithRetry (alwaysFails quotaAnd503) (Some noteRetry) (0, [])
      = (Inl (RateLimitError rateLimitDefault), (3, [1, 2]), exhausted)
    \<and> last (apiCalls exhausted) = Inl quotaAnd503
    \<and> matchesRateLimit (lowerMessage quotaAnd503) \<and> matchesServer (lowerMessage quotaAnd503)
    \<and> \<not> matchesInvalidInput (lowerMessage quotaAnd503))
   \<and> length (apiCalls [ApiCall (Inl badRequestAfter429) :: string event]) = Suc 0
   \<and> length (apiCalls exhausted) = 3"
proof -
  have runA: "callGeminiWithRetry (alwaysFails badRequestAfter429) (Some noteRetry) (0, [])
      = (Inl (InvalidInputError invalidInputMessage), (1, []), [ApiCall (Inl badRequestAfter429)])"
    by code_simp
  have runB: "callGeminiWithRetry (alwaysFails quotaAnd503) (Some noteRetry) (0, [])
      = (Inl (RateLimitError rateLimitDefault), (3, [1, 2]), exhausted)"
    by code_simp
  have hA: "callGeminiWithRetry (alwaysFails badRequestAfter429) (Some noteRetry) (0, [])
      = (Inl (InvalidInputError invalidInputMessage), (1, []), [ApiCall (Inl badRequestAfter429)])
    \<and> (0::nat) < length (apiCalls [ApiCall (Inl badRequestAfter429) :: string event])
    \<and> apiCalls [ApiCall (Inl badRequestAfter429) :: string event] ! 0 = Inl badRequestAfter429
    \<and> matchesInvalidInput (lowerMessage badRequestAfter429)
    \<and> (matchesRateLimit (lowerMessage badRequestAfter429) \<or> matchesServer (lowerMessage badRequestAfter429))"
    using runA both_400_and_429_message by simp
  have hB: "callGeminiWithRetry (alwaysFails quotaAnd503) (Some noteRetry) (0, [])
      = (Inl (RateLimitError rateLimitDefault), (3, [1, 2]), exhausted)
    \<and> last (apiCalls exhausted) = Inl quotaAnd503
    \<and> matchesRateLimit (lowerMessage quotaAnd503) \<and> matchesServer (lowerMessage quotaAnd503)
    \<and> \<not> matchesInvalidInput (lowerMessage quotaAnd503)"
    using runB both_quota_and_503_message by (simp add: exhausted_def)
  note inst = classification_precedence
    [of "alwaysFails badRequestAfter429" "Some noteRetry" "(0, [])"
        "Inl (InvalidInputError invalidInputMessage)" "(1, [])" "[ApiCall (Inl badRequestAfter429)]" 0
        badRequestAfter429
        "alwaysFails quotaAnd503" "Some noteRetry" "(0, [])"
        "Inl (RateLimitError rateLimitDefault)" "(3, [1, 2])" exhausted quotaAnd503]
  from inst hA hB show ?thesis
    by blast
qed

section \<open>Images that are not JSON\<close>




end
